theory Spec2Isabelle
  imports Main "HOL-Library.Word" "HOL-Library.Multiset"
begin

unbundle bit_operations_syntax

section \<open>Strings (package strings)\<close>

text \<open>A Go string is a sequence of bytes; so is \<open>string\<close>.\<close>

definition HasPrefix :: "string \<Rightarrow> string \<Rightarrow> bool" where
  "HasPrefix s p = (take (length p) s = p)"

fun Contains :: "string \<Rightarrow> string \<Rightarrow> bool" where
  "Contains [] substr = (substr = [])"
| "Contains (c # cs) substr = (HasPrefix (c # cs) substr \<or> Contains cs substr)"

text \<open>
  \<open>Split\<close> and \<open>ReplaceAll\<close> for a non-empty separator: the first argument of the
  workers counts the bytes of a matched separator still to be skipped, the third is the
  piece read so far, reversed.
\<close>

fun genSplit :: "nat \<Rightarrow> string \<Rightarrow> string \<Rightarrow> string \<Rightarrow> string list" where
  "genSplit k sep acc [] = [rev acc]"
| "genSplit (Suc k) sep acc (c # cs) = genSplit k sep acc cs"
| "genSplit 0 sep acc (c # cs) =
     (if HasPrefix (c # cs) sep then rev acc # genSplit (length sep - 1) sep [] cs
      else genSplit 0 sep (c # acc) cs)"

definition Split :: "string \<Rightarrow> string \<Rightarrow> string list" where
  "Split s sep = genSplit 0 sep [] s"

fun replace :: "nat \<Rightarrow> string \<Rightarrow> string \<Rightarrow> string \<Rightarrow> string" where
  "replace k old new [] = []"
| "replace (Suc k) old new (c # cs) = replace k old new cs"
| "replace 0 old new (c # cs) =
     (if HasPrefix (c # cs) old then new @ replace (length old - 1) old new cs
      else c # replace 0 old new cs)"

definition ReplaceAll :: "string \<Rightarrow> string \<Rightarrow> string \<Rightarrow> string" where
  "ReplaceAll s old new = replace 0 old new s"

text \<open>
  \<open>unicode.IsSpace\<close>, on the UTF-8 encoding of a rune: tab, line feed, vertical tab, form
  feed, carriage return, space, U+0085, U+00A0, U+1680, U+2000 to U+200A, U+2028, U+2029,
  U+202F, U+205F, U+3000.
\<close>

definition IsSpace :: "string \<Rightarrow> bool" where
  "IsSpace r =
     (case map of_char r of
        [a] \<Rightarrow> (9 \<le> a \<and> a \<le> 13) \<or> a = (32::nat)
      | [a, b] \<Rightarrow> a = 0xC2 \<and> (b = 0x85 \<or> b = 0xA0)
      | [a, b, c] \<Rightarrow>
          (a = 0xE1 \<and> b = 0x9A \<and> c = 0x80) \<or>
          (a = 0xE2 \<and> b = 0x80 \<and> ((0x80 \<le> c \<and> c \<le> 0x8A) \<or> c = 0xA8 \<or> c = 0xA9 \<or> c = 0xAF)) \<or>
          (a = 0xE2 \<and> b = 0x81 \<and> c = 0x9F) \<or>
          (a = 0xE3 \<and> b = 0x80 \<and> c = 0x80)
      | _ \<Rightarrow> False)"

text \<open>The length in bytes of the white-space rune a string starts or ends with, 0 if none.\<close>

definition leadingSpace :: "string \<Rightarrow> nat" where
  "leadingSpace s =
     (if 1 \<le> length s \<and> IsSpace (take 1 s) then 1
      else if 2 \<le> length s \<and> IsSpace (take 2 s) then 2
      else if 3 \<le> length s \<and> IsSpace (take 3 s) then 3
      else 0)"

definition trailingSpace :: "string \<Rightarrow> nat" where
  "trailingSpace s =
     (if 1 \<le> length s \<and> IsSpace (drop (length s - 1) s) then 1
      else if 2 \<le> length s \<and> IsSpace (drop (length s - 2) s) then 2
      else if 3 \<le> length s \<and> IsSpace (drop (length s - 3) s) then 3
      else 0)"

function TrimLeftSpace :: "string \<Rightarrow> string" where
  "TrimLeftSpace s =
     (if leadingSpace s = 0 then s else TrimLeftSpace (drop (leadingSpace s) s))"
  by pat_completeness auto
termination
  by (relation "measure length") (auto simp: leadingSpace_def split: if_splits)

function TrimRightSpace :: "string \<Rightarrow> string" where
  "TrimRightSpace s =
     (if trailingSpace s = 0 then s else TrimRightSpace (take (length s - trailingSpace s) s))"
  by pat_completeness auto
termination
  by (relation "measure length") (auto simp: trailingSpace_def split: if_splits)

declare TrimLeftSpace.simps [simp del] TrimRightSpace.simps [simp del]

definition TrimSpace :: "string \<Rightarrow> string" where
  "TrimSpace s = TrimRightSpace (TrimLeftSpace s)"

text \<open>
  \<open>strings.Join\<close>: the text of a list with the given entries. The matcher does not call
  it; it says what list a sequence of entries is.
\<close>

fun Join :: "string list \<Rightarrow> string \<Rightarrow> string" where
  "Join [] sep = []"
| "Join [e] sep = e"
| "Join (e # e' # es) sep = e @ sep @ Join (e' # es) sep"

text \<open>The ASCII white space of package strings: tab, line feed, vertical tab, form feed,
  carriage return and space.\<close>

definition asciiSpace :: "char \<Rightarrow> bool" where
  "asciiSpace c =
     (c = CHR 0x09 \<or> c = CHR 0x0A \<or> c = CHR 0x0B \<or> c = CHR 0x0C \<or> c = CHR 0x0D \<or> c = CHR '' '')"

section \<open>Addresses (packages net and net/netip)\<close>

type_synonym byte = "8 word"

text \<open>Index of the first and of the last occurrence of a byte, \<open>None\<close> for -1.\<close>

fun IndexByteString :: "string \<Rightarrow> char \<Rightarrow> nat option" where
  "IndexByteString [] c = None"
| "IndexByteString (x # xs) c =
     (if x = c then Some 0 else map_option Suc (IndexByteString xs c))"

definition LastIndexByteString :: "string \<Rightarrow> char \<Rightarrow> nat option" where
  "LastIndexByteString s c =
     map_option (\<lambda>k. length s - 1 - k) (IndexByteString (rev s) c)"

datatype AddrError = missingPort | tooManyColons | missingBracket | unexpectedOpen | unexpectedClose

text \<open>
  \<open>net.SplitHostPort\<close>. The last two checks of the Go function are \<open>splitTail\<close>:
  \<open>j\<close> and \<open>k\<close> are the positions after which no opening and no closing bracket may
  appear, \<open>i\<close> is the index of the last colon.
\<close>

definition splitTail :: "string \<Rightarrow> string \<Rightarrow> nat \<Rightarrow> nat \<Rightarrow> nat \<Rightarrow> AddrError + string \<times> string" where
  "splitTail hostport host i j k =
     (if IndexByteString (drop j hostport) CHR ''['' \<noteq> None then Inl unexpectedOpen
      else if IndexByteString (drop k hostport) CHR '']'' \<noteq> None then Inl unexpectedClose
      else Inr (host, drop (i + 1) hostport))"

definition SplitHostPort :: "string \<Rightarrow> AddrError + string \<times> string" where
  "SplitHostPort hostport =
     (case LastIndexByteString hostport CHR '':'' of
        None \<Rightarrow> Inl missingPort
      | Some i \<Rightarrow>
          if take 1 hostport = ''['' then
            (case IndexByteString hostport CHR '']'' of
               None \<Rightarrow> Inl missingBracket
             | Some e \<Rightarrow>
                 if e + 1 = length hostport then Inl missingPort
                 else if e + 1 = i then
                   splitTail hostport (take (e - 1) (drop 1 hostport)) i 1 (e + 1)
                 else if take 1 (drop (e + 1) hostport) = '':'' then Inl tooManyColons
                 else Inl missingPort)
          else
            (if IndexByteString (take i hostport) CHR '':'' \<noteq> None then Inl tooManyColons
             else splitTail hostport (take i hostport) i 0 0))"

definition isDigit :: "char \<Rightarrow> bool" where
  "isDigit c = (48 \<le> (of_char c :: nat) \<and> (of_char c :: nat) \<le> 57)"

text \<open>
  \<open>netip.parseIPv4\<close>: the loop over the bytes of \<open>s\<close>, at index \<open>i\<close>, with the fields
  completed so far (\<open>pos\<close> is their number), the value and the number of digits of the
  current field.
\<close>

fun parseIPv4_loop :: "string \<Rightarrow> nat \<Rightarrow> byte list \<Rightarrow> nat \<Rightarrow> nat \<Rightarrow> string \<Rightarrow> byte list option" where
  "parseIPv4_loop s i fields val digLen [] =
     (if length fields < 3 then None else Some (fields @ [of_nat val]))"
| "parseIPv4_loop s i fields val digLen (c # cs) =
     (if isDigit c then
        (if digLen = 1 \<and> val = 0 then None
         else if val * 10 + (of_char c - 48) > 255 then None
         else parseIPv4_loop s (i + 1) fields (val * 10 + (of_char c - 48)) (digLen + 1) cs)
      else if c = CHR ''.'' then
        (if i = 0 \<or> i = length s - 1 \<or> s ! (i - 1) = CHR ''.'' then None
         else if length fields = 3 then None
         else parseIPv4_loop s (i + 1) (fields @ [of_nat val]) 0 0 cs)
      else None)"

definition parseIPv4 :: "string \<Rightarrow> byte list option" where
  "parseIPv4 s = parseIPv4_loop s 0 [] 0 0 s"

definition hexval :: "char \<Rightarrow> nat option" where
  "hexval c =
     (let n = (of_char c :: nat) in
      if 48 \<le> n \<and> n \<le> 57 then Some (n - 48)
      else if 97 \<le> n \<and> n \<le> 102 then Some (n - 97 + 10)
      else if 65 \<le> n \<and> n \<le> 70 then Some (n - 65 + 10)
      else None)"

text \<open>
  The inner loop of \<open>netip.parseIPv6\<close>, reading one group of hex digits: the number of
  digits read and their value, or \<open>None\<close> at a fifth digit.
\<close>

fun hexField :: "nat \<Rightarrow> nat \<Rightarrow> string \<Rightarrow> (nat \<times> nat) option" where
  "hexField off acc [] = Some (off, acc)"
| "hexField off acc (c # cs) =
     (case hexval c of
        None \<Rightarrow> Some (off, acc)
      | Some v \<Rightarrow>
          if off > 3 then None
          else if acc * 16 + v > 65535 then None
          else hexField (off + 1) (acc * 16 + v) cs)"

text \<open>
  The outer loop of \<open>netip.parseIPv6\<close>: \<open>i\<close> bytes of \<open>ip\<close> are written, \<open>ellipsis\<close> is
  the position of \<open>::\<close> if it was seen, \<open>s\<close> is the rest of the text. The result is the
  state at the exit of the loop.
\<close>

function parseIPv6_loop :: "nat \<Rightarrow> nat option \<Rightarrow> byte list \<Rightarrow> string \<Rightarrow> (nat \<times> nat option \<times> byte list \<times> string) option" where
  "parseIPv6_loop i ellipsis ip s =
     (if i < 16 then
        (case hexField 0 0 s of
           None \<Rightarrow> None
         | Some (off, acc) \<Rightarrow>
             if off = 0 then None
             else if take 1 (drop off s) = ''.'' then
               (if ellipsis = None \<and> i \<noteq> 12 then None
                else if i + 4 > 16 then None
                else (case parseIPv4 s of
                        None \<Rightarrow> None
                      | Some ip4 \<Rightarrow>
                          Some (i + 4, ellipsis,
                                take i ip @ ip4 @ drop (i + 4) ip, [])))
             else if drop off s = [] then
               Some (i + 2, ellipsis, ip[i := of_nat (acc div 256), i + 1 := of_nat acc], [])
             else if take 1 (drop off s) \<noteq> '':'' then None
             else if length (drop off s) = 1 then None
             else if take 1 (drop (off + 1) s) = '':'' then
               (if ellipsis \<noteq> None then None
                else if drop (off + 2) s = [] then
                  Some (i + 2, Some (i + 2),
                        ip[i := of_nat (acc div 256), i + 1 := of_nat acc], [])
                else parseIPv6_loop (i + 2) (Some (i + 2))
                       (ip[i := of_nat (acc div 256), i + 1 := of_nat acc]) (drop (off + 2) s))
             else parseIPv6_loop (i + 2) ellipsis
                    (ip[i := of_nat (acc div 256), i + 1 := of_nat acc]) (drop (off + 1) s))
      else Some (i, ellipsis, ip, s))"
  by pat_completeness auto
termination
  by (relation "measure (\<lambda>(i, e, ip, s). 16 - i)") auto

declare parseIPv6_loop.simps [simp del]

text \<open>\<open>netip.Addr\<close>: an IPv4 address, or an IPv6 address with its zone.\<close>

datatype Addr = Addr4 "byte list" | Addr6 "byte list" string

definition zero16 :: "byte list" where
  "zero16 = [0, 0, 0, 0, 0, 0, 0, 0, 0, 0, 0, 0, 0, 0, 0, 0]"

definition parseIPv6 :: "string \<Rightarrow> Addr option" where
  "parseIPv6 input =
     (let pct = IndexByteString input CHR ''%'';
          s = (case pct of None \<Rightarrow> input | Some p \<Rightarrow> take p input);
          zone = (case pct of None \<Rightarrow> [] | Some p \<Rightarrow> drop (p + 1) input)
      in if pct \<noteq> None \<and> zone = [] then None
         else
           (let lead = (length s \<ge> 2 \<and> take 2 s = ''::'');
               ellipsis = (if lead then Some 0 else None);
               s1 = (if lead then drop 2 s else s)
           in if lead \<and> s1 = [] then Some (Addr6 zero16 zone)
              else
                (case parseIPv6_loop 0 ellipsis zero16 s1 of
                   None \<Rightarrow> None
                 | Some (i, ell, ip, rest) \<Rightarrow>
                     if rest \<noteq> [] then None
                     else if i < 16 then
                       (case ell of
                          None \<Rightarrow> None
                        | Some e \<Rightarrow>
                            Some (Addr6 (take e ip @ take (16 - i) zero16 @ take (i - e) (drop e ip))
                                    zone))
                     else if ell \<noteq> None then None
                     else Some (Addr6 ip zone))))"

fun ParseAddr_scan :: "string \<Rightarrow> string \<Rightarrow> Addr option" where
  "ParseAddr_scan s [] = None"
| "ParseAddr_scan s (c # cs) =
     (if c = CHR ''.'' then map_option Addr4 (parseIPv4 s)
      else if c = CHR '':'' then parseIPv6 s
      else if c = CHR ''%'' then None
      else ParseAddr_scan s cs)"

definition ParseAddr :: "string \<Rightarrow> Addr option" where
  "ParseAddr s = ParseAddr_scan s s"

definition v4InV6Prefix :: "byte list" where
  "v4InV6Prefix = [0, 0, 0, 0, 0, 0, 0, 0, 0, 0, 0xff, 0xff]"

fun As16 :: "Addr \<Rightarrow> byte list" where
  "As16 (Addr4 b) = v4InV6Prefix @ b"
| "As16 (Addr6 b z) = b"

fun Zone :: "Addr \<Rightarrow> string" where
  "Zone (Addr4 b) = []"
| "Zone (Addr6 b z) = z"

fun BitLen :: "Addr \<Rightarrow> nat" where
  "BitLen (Addr4 b) = 32"
| "BitLen (Addr6 b z) = 128"

text \<open>\<open>net.IP\<close> and \<open>net.IPMask\<close> are byte slices; a nil slice is \<open>None\<close>.\<close>

type_synonym IP = "byte list"
type_synonym IPMask = "byte list"

record IPNet =
  IPNet_IP :: "IP option"
  IPNet_Mask :: IPMask

definition IPv4len :: nat where "IPv4len = 4"
definition IPv6len :: nat where "IPv6len = 16"

definition ParseIP :: "string \<Rightarrow> IP option" where
  "ParseIP s =
     (case ParseAddr s of
        None \<Rightarrow> None
      | Some a \<Rightarrow> if Zone a \<noteq> [] then None else Some (As16 a))"

definition To4 :: "IP \<Rightarrow> IP option" where
  "To4 ip =
     (if length ip = IPv4len then Some ip
      else if length ip = IPv6len \<and> take 10 ip = take 10 zero16 \<and> ip ! 10 = 0xff \<and> ip ! 11 = 0xff
        then Some (drop 12 ip)
      else None)"

text \<open>\<open>dtoi\<close>: the decimal number a string starts with, the digits read, and success.\<close>

fun dtoi_loop :: "nat \<Rightarrow> nat \<Rightarrow> string \<Rightarrow> nat \<times> nat \<times> bool" where
  "dtoi_loop n i [] = (if i = 0 then (0, 0, False) else (n, i, True))"
| "dtoi_loop n i (c # cs) =
     (if isDigit c then
        (if n * 10 + (of_char c - 48) \<ge> 0xFFFFFF then (0xFFFFFF, i, False)
         else dtoi_loop (n * 10 + (of_char c - 48)) (i + 1) cs)
      else (if i = 0 then (0, 0, False) else (n, i, True)))"

definition dtoi :: "string \<Rightarrow> nat \<times> nat \<times> bool" where
  "dtoi s = dtoi_loop 0 0 s"

fun CIDRMask_loop :: "nat \<Rightarrow> nat \<Rightarrow> IPMask" where
  "CIDRMask_loop n 0 = []"
| "CIDRMask_loop n (Suc l) =
     (if n \<ge> 8 then 0xff # CIDRMask_loop (n - 8) l
      else NOT (drop_bit n (0xff :: byte)) # CIDRMask_loop 0 l)"

definition CIDRMask :: "nat \<Rightarrow> nat \<Rightarrow> IPMask option" where
  "CIDRMask ones bits =
     (if bits \<noteq> 8 * IPv4len \<and> bits \<noteq> 8 * IPv6len then None
      else if ones > bits then None
      else Some (CIDRMask_loop ones (bits div 8)))"

definition allFF :: "byte list \<Rightarrow> bool" where
  "allFF b = list_all (\<lambda>c. c = 0xff) b"

definition IP_Mask :: "IP \<Rightarrow> IPMask \<Rightarrow> IP option" where
  "IP_Mask ip msk =
     (let mask1 = (if length msk = IPv6len \<and> length ip = IPv4len \<and> allFF (take 12 msk)
                   then drop 12 msk else msk);
          ip1 = (if length mask1 = IPv4len \<and> length ip = IPv6len \<and> take 12 ip = v4InV6Prefix
                 then drop 12 ip else ip)
      in if length ip1 \<noteq> length mask1 then None
         else Some (map (\<lambda>(a, m). a AND m) (zip ip1 mask1)))"

definition ParseCIDR :: "string \<Rightarrow> (IP \<times> IPNet) option" where
  "ParseCIDR s =
     (case IndexByteString s CHR ''/'' of
        None \<Rightarrow> None
      | Some i \<Rightarrow>
          (case ParseAddr (take i s) of
             None \<Rightarrow> None
           | Some ipAddr \<Rightarrow>
               if Zone ipAddr \<noteq> [] then None
               else
                 (case dtoi (drop (i + 1) s) of
                    (n, k, ok) \<Rightarrow>
                      if \<not> ok \<or> k \<noteq> length (drop (i + 1) s) \<or> n > BitLen ipAddr then None
                      else
                        (case CIDRMask n (BitLen ipAddr) of
                           None \<Rightarrow> None
                         | Some m \<Rightarrow>
                             Some (As16 ipAddr,
                                   \<lparr>IPNet_IP = IP_Mask (As16 ipAddr) m, IPNet_Mask = m\<rparr>)))))"

definition networkNumberAndMask :: "IPNet \<Rightarrow> (IP \<times> IPMask) option" where
  "networkNumberAndMask n =
     (case IPNet_IP n of
        None \<Rightarrow> None
      | Some nip \<Rightarrow>
          (case (case To4 nip of Some x \<Rightarrow> Some x
                 | None \<Rightarrow> if length nip \<noteq> IPv6len then None else Some nip) of
             None \<Rightarrow> None
           | Some ip \<Rightarrow>
               if length (IPNet_Mask n) = IPv4len then
                 (if length ip \<noteq> IPv4len then None else Some (ip, IPNet_Mask n))
               else if length (IPNet_Mask n) = IPv6len then
                 (if length ip = IPv4len then Some (ip, drop 12 (IPNet_Mask n))
                  else Some (ip, IPNet_Mask n))
               else None))"

definition IPNet_Contains :: "IPNet \<Rightarrow> IP \<Rightarrow> bool" where
  "IPNet_Contains n ip =
     (case networkNumberAndMask n of
        None \<Rightarrow> False
      | Some (nn, m) \<Rightarrow>
          (let ip1 = (case To4 ip of Some x \<Rightarrow> x | None \<Rightarrow> ip)
           in if length ip1 \<noteq> length nn then False
              else list_all (\<lambda>(a, b, c). a AND c = b AND c) (zip nn (zip ip1 m))))"

section \<open>Access matcher (internal/utils/ip.go)\<close>

text \<open>The body of the loop over the entries: the network an entry adds, if any.\<close>

definition whitelistEntry :: "string \<Rightarrow> IPNet option" where
  "whitelistEntry entry0 =
     (let entry1 = TrimSpace entry0;
          entry2 = ReplaceAll entry1 '' '' ''''
      in if entry2 = '''' then None
         else
           (let entry3 = (if \<not> Contains entry2 ''/'' then
                            (if Contains entry2 '':'' then entry2 @ ''/128'' else entry2 @ ''/32'')
                          else entry2)
            in (case ParseCIDR entry3 of None \<Rightarrow> None | Some (_, ipnet) \<Rightarrow> Some ipnet)))"

fun ipNets_of :: "string list \<Rightarrow> IPNet list" where
  "ipNets_of [] = []"
| "ipNets_of (entry # rest) =
     (case whitelistEntry entry of
        None \<Rightarrow> ipNets_of rest
      | Some ipnet \<Rightarrow> ipnet # ipNets_of rest)"

fun anyContains :: "IPNet list \<Rightarrow> IP \<Rightarrow> bool" where
  "anyContains [] ip = False"
| "anyContains (ipnet # rest) ip = (if IPNet_Contains ipnet ip then True else anyContains rest ip)"

text \<open>
  The host of the remote address: the host part when the address splits into host and
  port, the whole address trimmed otherwise.
\<close>

definition remoteHost :: "string \<Rightarrow> string" where
  "remoteHost remoteAddr =
     (case SplitHostPort remoteAddr of
        Inr (host, _) \<Rightarrow> host
      | Inl _ \<Rightarrow> TrimSpace remoteAddr)"

text \<open>\<open>if ip.To4() != nil { ip = ip.To4() }\<close>\<close>

definition normalize4 :: "IP \<Rightarrow> IP" where
  "normalize4 ip = (case To4 ip of Some x \<Rightarrow> x | None \<Rightarrow> ip)"

definition IsIPAllowed :: "string \<Rightarrow> string \<Rightarrow> bool" where
  "IsIPAllowed remoteAddr ipWhitelist =
     (if TrimSpace ipWhitelist = '''' then False
      else
        (let whitelist = Split ipWhitelist '','';
             ipNets = ipNets_of whitelist;
             host = remoteHost remoteAddr
         in (case ParseIP (TrimSpace host) of
               None \<Rightarrow> False
             | Some ip \<Rightarrow> anyContains ipNets (normalize4 ip))))"

section \<open>Credential manager (internal/token/ecr.go)\<close>

text \<open>
  Instants (\<open>time.Time\<close>) and durations (\<open>time.Duration\<close>) are integers counting
  nanoseconds; \<open>Before\<close> and \<open>After\<close> are the strict orders on instants and
  \<open>Add\<close> is addition. The saturation of \<open>time.Time\<close> at the ends of its range is not
  modelled.
\<close>

type_synonym time = int

definition Hour :: int where
  "Hour = 3600 * 1000000000"

definition tokenRefreshAfter :: int where
  "tokenRefreshAfter = 6 * Hour"

definition Before :: "time \<Rightarrow> time \<Rightarrow> bool" where
  "Before t u = (t < u)"

definition After :: "time \<Rightarrow> time \<Rightarrow> bool" where
  "After t u = (t > u)"

definition Add :: "time \<Rightarrow> int \<Rightarrow> time" where
  "Add t d = t + d"

text \<open>
  The \<open>Token\<close> struct. The lock and the AWS session carry no data of their own; the
  calls made through the session are returned by the operations that make them.
\<close>

record Token =
  Token :: string
  ExpiresAt :: time
  Endpoint :: string
  Region :: string
  Account :: string

text \<open>
  An error is either the one returned by the AWS SDK or one built by \<open>fmt.Errorf\<close>
  with its message.
\<close>

datatype error = SdkError string | Errorf string

text \<open>
  \<open>ecr.AuthorizationData\<close>: every field is a pointer, \<open>None\<close> is nil. The output of
  \<open>GetAuthorizationToken\<close> is a slice of pointers to such records.
\<close>

record AuthorizationData =
  AuthorizationToken :: "string option"
  ExpiresAt_raw :: "time option"
  ProxyEndpoint :: "string option"

type_synonym GetAuthorizationTokenOutput = "AuthorizationData option list"

text \<open>
  The upstream service, as one call sees it: from the \<open>RegistryIds\<close> of the request to
  the SDK's error or the output.
\<close>

type_synonym ecr_service = "string list \<Rightarrow> error + GetAuthorizationTokenOutput"

definition IsValid :: "time \<Rightarrow> Token \<Rightarrow> bool" where
  "IsValid now t = (Before now (ExpiresAt t) \<and> length (Token t) > 0)"

definition GetEndpoint :: "Token \<Rightarrow> string" where
  "GetEndpoint t = Endpoint t"

definition GetExpiresAt :: "Token \<Rightarrow> time" where
  "GetExpiresAt t = ExpiresAt t"

definition IsExpired :: "time \<Rightarrow> Token \<Rightarrow> bool" where
  "IsExpired now t = After now (ExpiresAt t)"

definition isExpiredUnsafe :: "time \<Rightarrow> Token \<Rightarrow> bool" where
  "isExpiredUnsafe now t = After now (ExpiresAt t)"

text \<open>
  \<open>Refresh\<close> at instant \<open>now\<close> against the service \<open>svc\<close>. The result is the returned
  error (\<open>None\<close> for nil), the manager afterwards, and the list of requests sent upstream
  (each one its \<open>RegistryIds\<close>).
\<close>

definition Refresh :: "time \<Rightarrow> ecr_service \<Rightarrow> Token \<Rightarrow> error option \<times> Token \<times> string list list" where
  "Refresh now svc t =
     (if Before now (ExpiresAt t) \<and> length (Token t) > 0 then (None, t, [])
      else
        let input = [Account t] in
        (case svc input of
          Inl err \<Rightarrow> (Some err, t, [input])
        | Inr result \<Rightarrow>
            (case result of
               [] \<Rightarrow> (Some (Errorf ''no authorization data returned from ECR''), t, [input])
             | authData # _ \<Rightarrow>
                 (case authData of
                    None \<Rightarrow> (Some (Errorf ''authorization data is nil''), t, [input])
                  | Some a \<Rightarrow>
                      (case AuthorizationToken a of
                         None \<Rightarrow> (Some (Errorf ''authorization token is nil''), t, [input])
                       | Some tokenv \<Rightarrow>
                           (case ExpiresAt_raw a of
                              None \<Rightarrow> (Some (Errorf ''expiration time is nil''), t, [input])
                            | Some expires \<Rightarrow>
                                (case ProxyEndpoint a of
                                   None \<Rightarrow> (Some (Errorf ''proxy endpoint is nil''), t, [input])
                                 | Some endpoint \<Rightarrow>
                                     (None,
                                      t\<lparr>Token := tokenv,
                                        ExpiresAt := Add expires (- tokenRefreshAfter),
                                        Endpoint := (if HasPrefix endpoint ''https://''
                                                     then drop 8 endpoint else endpoint)\<rparr>,
                                      [input]))))))))"

text \<open>
  \<open>GetToken\<close> reads the clock once for its own check (\<open>now\<close>) and \<open>Refresh\<close> reads it
  again (\<open>now'\<close>).
\<close>

definition GetToken :: "time \<Rightarrow> time \<Rightarrow> ecr_service \<Rightarrow> Token \<Rightarrow> (string \<times> error option) \<times> Token \<times> string list list" where
  "GetToken now now' svc t =
     (if isExpiredUnsafe now t then
        (case Refresh now' svc t of
           (Some err, t', calls) \<Rightarrow> (('''', Some err), t', calls)
         | (None, t', calls) \<Rightarrow> ((Token t', None), t', calls))
      else ((Token t, None), t, []))"

text \<open>
  \<open>NewToken\<close>: \<open>sess\<close> is the outcome of \<open>session.NewSession\<close>. The fields the struct
  literal leaves out have their zero values; the zero instant is before every instant a
  clock shows, which the parameter \<open>zero\<close> stands for.
\<close>

definition NewToken :: "time \<Rightarrow> time \<Rightarrow> error option \<Rightarrow> ecr_service \<Rightarrow> string \<Rightarrow> string \<Rightarrow> error + Token" where
  "NewToken zero now sess svc region account =
     (case sess of
        Some err \<Rightarrow> Inl err
      | None \<Rightarrow>
          let t = \<lparr>Token = '''', ExpiresAt = zero, Endpoint = '''', Region = region,
                   Account = account\<rparr> in
          (case Refresh now svc t of
            (Some err, _, _) \<Rightarrow> Inl err
          | (None, t', _) \<Rightarrow> Inr t'))"

section \<open>Server (main.go)\<close>

definition v2Path :: string where
  "v2Path = ''/v2/''"

record config =
  Region_cfg :: string
  Account_cfg :: string
  IpWhitelist :: string
  TlsCertFile :: string
  TlsKeyFile :: string
  Port :: string

text \<open>
  \<open>http.Request\<close>, with the fields the handlers read or write. A header maps a key to its
  values; \<open>Header_Set\<close> replaces the values of a key by one value (the key
  \<open>Authorization\<close> is in canonical form already).
\<close>

record URL =
  URL_Scheme :: string
  URL_Host :: string
  URL_Path :: string

type_synonym Header = "string \<rightharpoonup> string list"

record Request =
  Method :: string
  URL :: URL
  Host :: string
  Header :: Header
  RemoteAddr :: string

definition Header_Set :: "Header \<Rightarrow> string \<Rightarrow> string \<Rightarrow> Header" where
  "Header_Set h key v = h(key \<mapsto> [v])"

text \<open>
  The \<open>Director\<close> of the reverse proxy, the closure set up in \<open>setupProxy\<close>. Its two
  local variables are arguments here: \<open>endpoint\<close> is what \<open>s.token.GetEndpoint()\<close>
  returned and \<open>authToken\<close> is the token read by \<open>s.token.GetToken()\<close> after it. (The
  closure binds \<open>GetToken()\<close> to one variable; \<open>GetToken\<close> above has a second result,
  an error, for which the closure has no branch.) The function is the four assignments.
\<close>

definition Director :: "string \<Rightarrow> string \<Rightarrow> Request \<Rightarrow> Request" where
  "Director endpoint authToken req =
     req\<lparr>URL := (URL req)\<lparr>URL_Scheme := ''https'', URL_Host := endpoint\<rparr>,
         Host := endpoint,
         Header := Header_Set (Header req) ''Authorization'' (''Basic '' @ authToken)\<rparr>"

text \<open>
  \<open>handleProxy\<close>. \<open>utils.GetClientIP\<close> is not among the sources and is a parameter. The
  result is the sequence of calls the handler makes.
\<close>

datatype call =
  Call_GetClientIP
| Call_IsIPAllowed string string
| Call_logx_Print string
| Call_http_Error string nat
| Call_proxy_ServeHTTP

definition StatusForbidden :: nat where
  "StatusForbidden = 403"

definition forward :: "Request \<Rightarrow> call list" where
  "forward r =
     (if URL_Path (URL r) \<noteq> v2Path then [Call_logx_Print ''proxy to ECR''] else []) @
     [Call_proxy_ServeHTTP]"

definition handleProxy :: "(Request \<Rightarrow> string) \<Rightarrow> config \<Rightarrow> Request \<Rightarrow> call list" where
  "handleProxy GetClientIP cfg r =
     (if IpWhitelist cfg \<noteq> '''' then
        (let clientIP = GetClientIP r;
             allowed = IsIPAllowed clientIP (IpWhitelist cfg)
         in if \<not> allowed then
              [Call_GetClientIP, Call_IsIPAllowed clientIP (IpWhitelist cfg),
               Call_logx_Print ''Denied request from IP (not in whitelist)'',
               Call_http_Error ''Forbidden'' StatusForbidden]
            else [Call_GetClientIP, Call_IsIPAllowed clientIP (IpWhitelist cfg)] @ forward r)
      else forward r)"

section \<open>Fixtures of the examples\<close>

text \<open>A service that gives every request the same answer, managers and records.\<close>

definition answering :: "error + GetAuthorizationTokenOutput \<Rightarrow> ecr_service" where
  "answering r ids = r"

definition fresh_manager :: Token where
  "fresh_manager = \<lparr>Token = '''', ExpiresAt = 0, Endpoint = '''', Region = ''us-east-1'',
                     Account = ''123456789012''\<rparr>"

definition full_record :: "time \<Rightarrow> AuthorizationData" where
  "full_record raw = \<lparr>AuthorizationToken = Some ''QVdTOnRvaw=='', ExpiresAt_raw = Some raw,
     ProxyEndpoint = Some ''https://123456789012.dkr.ecr.us-east-1.amazonaws.com''\<rparr>"

definition held_manager :: Token where
  "held_manager = \<lparr>Token = ''QVdTOnRvaw=='', ExpiresAt = 6 * Hour,
     Endpoint = ''123456789012.dkr.ecr.us-east-1.amazonaws.com'', Region = ''us-east-1'',
     Account = ''123456789012''\<rparr>"

definition partial_record :: "string option \<Rightarrow> time option \<Rightarrow> string option \<Rightarrow> AuthorizationData" where
  "partial_record tk ex ep = \<lparr>AuthorizationToken = tk, ExpiresAt_raw = ex, ProxyEndpoint = ep\<rparr>"

definition plain_request :: Request where
  "plain_request = \<lparr>Method = ''GET'', URL = \<lparr>URL_Scheme = '''', URL_Host = '''',
     URL_Path = ''/v2/library/alpine/manifests/latest''\<rparr>, Host = ''proxy.local:5000'',
     Header = Map.empty, RemoteAddr = ''10.1.2.3:40000''\<rparr>"

definition open_config :: config where
  "open_config = \<lparr>Region_cfg = ''us-east-1'', Account_cfg = ''123456789012'',
     IpWhitelist = '''', TlsCertFile = ''./certs/tls.crt'', TlsKeyFile = ''./certs/tls.key'',
     Port = ''5000''\<rparr>"

text \<open>A record the service answers with after a change of endpoint, and the manager that
  holds it.\<close>

definition rotated_record :: AuthorizationData where
  "rotated_record = \<lparr>AuthorizationToken = Some ''QVdTOm5ldw=='', ExpiresAt_raw = Some (19 * Hour),
     ProxyEndpoint = Some ''https://123456789012.dkr.ecr-fips.us-east-1.amazonaws.com''\<rparr>"

definition rotated_manager :: Token where
  "rotated_manager = \<lparr>Token = ''QVdTOm5ldw=='', ExpiresAt = 13 * Hour,
     Endpoint = ''123456789012.dkr.ecr-fips.us-east-1.amazonaws.com'', Region = ''us-east-1'',
     Account = ''123456789012''\<rparr>"

text \<open>The networks of some entries.\<close>

definition net_192_168_1_10 :: IPNet where
  "net_192_168_1_10 = \<lparr>IPNet_IP = Some [192, 168, 1, 10], IPNet_Mask = [255, 255, 255, 255]\<rparr>"

definition net_10_8 :: IPNet where
  "net_10_8 = \<lparr>IPNet_IP = Some [10, 0, 0, 0], IPNet_Mask = [255, 0, 0, 0]\<rparr>"

definition net_192_168_1_1 :: IPNet where
  "net_192_168_1_1 = \<lparr>IPNet_IP = Some [192, 168, 1, 1], IPNet_Mask = [255, 255, 255, 255]\<rparr>"


section \<open>Properties of the credential manager\<close>

lemma Refresh_valid: "IsValid now t \<Longrightarrow> Refresh now svc t = (None, t, [])"
  by (simp add: Refresh_def IsValid_def)

lemma Refresh_calls: "\<not> IsValid now t \<Longrightarrow> snd (snd (Refresh now svc t)) = [[Account t]]"
  by (simp add: Refresh_def IsValid_def Let_def split: sum.splits list.splits option.splits)

lemma Refresh_error_unchanged: "Refresh now svc t = (Some e, t', calls) \<Longrightarrow> t' = t"
  by (auto simp: Refresh_def Let_def split: if_splits sum.splits list.splits option.splits)

lemma Refresh_fresh_ok:
  "Refresh 0 (answering (Inr [Some (full_record raw)])) fresh_manager =
     (None, fresh_manager\<lparr>Token := ''QVdTOnRvaw=='', ExpiresAt := raw - 6 * Hour,
        Endpoint := ''123456789012.dkr.ecr.us-east-1.amazonaws.com''\<rparr>, [[''123456789012'']])"
  by (simp add: Refresh_def answering_def fresh_manager_def full_record_def Before_def
      Add_def tokenRefreshAfter_def HasPrefix_def)

lemma Refresh_success_fields:
  assumes "Refresh now svc t = (None, t', c # cs)"
    and "svc [Account t] = Inr (Some a # rest)"
  shows "AuthorizationToken a = Some (Token t') \<and>
         ExpiresAt_raw a = Some (ExpiresAt t' + tokenRefreshAfter) \<and>
         (\<exists>ep. ProxyEndpoint a = Some ep \<and>
               Endpoint t' = (if HasPrefix ep ''https://'' then drop 8 ep else ep))"
  using assms
  by (auto simp: Refresh_def Let_def Add_def split: if_splits option.splits)

lemma Refresh_complete:
  "\<not> IsValid now t \<Longrightarrow> svc [Account t] = Inr (Some a # rest) \<Longrightarrow>
   AuthorizationToken a = Some tk \<Longrightarrow> ExpiresAt_raw a = Some raw \<Longrightarrow> ProxyEndpoint a = Some ep \<Longrightarrow>
   Refresh now svc t =
     (None,
      t\<lparr>Token := tk, ExpiresAt := raw - 6 * 3600 * 1000000000,
        Endpoint := (if HasPrefix ep ''https://'' then drop 8 ep else ep)\<rparr>,
      [[Account t]])"
  by (simp add: Refresh_def IsValid_def Add_def tokenRefreshAfter_def Hour_def)

lemma Refresh_nil_after_call:
  "\<not> IsValid now t \<and> fst (Refresh now svc t) = None \<Longrightarrow>
   \<exists>a rest ep. svc [Account t] = Inr (Some a # rest) \<and>
     AuthorizationToken a = Some (Token (fst (snd (Refresh now svc t)))) \<and>
     ExpiresAt_raw a = Some (ExpiresAt (fst (snd (Refresh now svc t))) + tokenRefreshAfter) \<and>
     ProxyEndpoint a = Some ep \<and>
     Endpoint (fst (snd (Refresh now svc t))) =
       (if HasPrefix ep ''https://'' then drop 8 ep else ep)"
  by (auto simp: Refresh_def IsValid_def Let_def Add_def
      split: sum.splits list.splits option.splits)

text \<open>
  C1. When \<open>Refresh\<close> fetches and succeeds, the stored expiry is the expiry of the upstream
  record minus the margin of 6 hours (in nanoseconds), and \<open>IsValid\<close> holds exactly at the
  instants before that stored expiry (given a non-empty token): it is false from the
  adjusted instant on, not only from the raw one.
\<close>

theorem Refresh_expiry_margin:
  assumes "Refresh now svc t = (None, t', c # cs)"
    and "svc [Account t] = Inr (Some a # rest)"
    and "ExpiresAt_raw a = Some raw"
  shows "ExpiresAt t' = raw - 6 * 3600 * 1000000000 \<and>
         (\<forall>u. IsValid u t' = (u < raw - 6 * 3600 * 1000000000 \<and> Token t' \<noteq> ''''))"
proof -
  from Refresh_success_fields [OF assms(1,2)] assms(3)
  have e: "ExpiresAt t' = raw - 6 * 3600 * 1000000000"
    by (simp add: tokenRefreshAfter_def Hour_def)
  then show ?thesis
    by (simp add: IsValid_def Before_def)
qed

theorem Refresh_expiry_margin_witness:
  "Refresh 0 (answering (Inr [Some (full_record (12 * Hour))])) fresh_manager =
     (None, held_manager, [[''123456789012'']]) \<and>
   ExpiresAt held_manager = 0 + 6 * Hour \<and>
   IsValid (6 * Hour - 1) held_manager \<and>
   \<not> IsValid (6 * Hour) held_manager \<and>
   \<not> IsValid (12 * Hour - 1) held_manager"
proof -
  have r: "Refresh 0 (answering (Inr [Some (full_record (12 * Hour))])) fresh_manager =
     (None, held_manager, [[''123456789012'']] @ [])"
    by (simp add: Refresh_fresh_ok) (simp add: fresh_manager_def held_manager_def)
  have s: "answering (Inr [Some (full_record (12 * Hour))]) [Account fresh_manager] =
     Inr (Some (full_record (12 * Hour)) # [])"
    by (simp add: answering_def)
  have x: "ExpiresAt_raw (full_record (12 * Hour)) = Some (12 * Hour)"
    by (simp add: full_record_def)
  from Refresh_expiry_margin [OF r [simplified] s x] r show ?thesis
    by (simp add: Hour_def held_manager_def)
qed

text \<open>
  C2, as stated: every call of \<open>Refresh\<close> sends a request upstream. It fails on a manager
  that holds a valid credential: the call returns nil and sends nothing, whatever the
  service would have answered.
\<close>

theorem Refresh_always_fetches_counterexample:
  "IsValid 0 held_manager \<and>
   Refresh 0 (answering (Inr [Some (full_record (24 * Hour))])) held_manager =
     (None, held_manager, [])"
  by (simp add: Refresh_def IsValid_def Before_def held_manager_def Hour_def)

text \<open>
  C2, amended. \<open>Refresh\<close> first checks the held credential again: when it is valid (the
  stored expiry is ahead and the token is non-empty) the call returns nil, sends no request
  and changes nothing. Otherwise it sends exactly one request, for the manager's account.
  When the answer to it is a complete record the call returns nil and the manager holds,
  all at once, the token of the record, its expiry less the margin and its endpoint
  without the scheme; and the call returns nil after a request in no other case.
\<close>

theorem Refresh_fetches_iff_not_valid:
  "(IsValid now t \<longrightarrow> Refresh now svc t = (None, t, [])) \<and>
   (\<not> IsValid now t \<longrightarrow> snd (snd (Refresh now svc t)) = [[Account t]]) \<and>
   (\<not> IsValid now t \<and> svc [Account t] = Inr (Some a # rest) \<and>
    AuthorizationToken a = Some tk \<and> ExpiresAt_raw a = Some raw \<and> ProxyEndpoint a = Some ep \<longrightarrow>
      Refresh now svc t =
        (None,
         t\<lparr>Token := tk, ExpiresAt := raw - 6 * 3600 * 1000000000,
           Endpoint := (if HasPrefix ep ''https://'' then drop 8 ep else ep)\<rparr>,
         [[Account t]])) \<and>
   (\<not> IsValid now t \<and> fst (Refresh now svc t) = None \<longrightarrow>
      (\<exists>a rest ep. svc [Account t] = Inr (Some a # rest) \<and>
         AuthorizationToken a = Some (Token (fst (snd (Refresh now svc t)))) \<and>
         ExpiresAt_raw a = Some (ExpiresAt (fst (snd (Refresh now svc t))) + tokenRefreshAfter) \<and>
         ProxyEndpoint a = Some ep \<and>
         Endpoint (fst (snd (Refresh now svc t))) =
           (if HasPrefix ep ''https://'' then drop 8 ep else ep)))"
proof (intro conjI impI)
  assume "IsValid now t"
  then show "Refresh now svc t = (None, t, [])" by (rule Refresh_valid)
next
  assume "\<not> IsValid now t"
  then show "snd (snd (Refresh now svc t)) = [[Account t]]" by (rule Refresh_calls)
next
  assume "\<not> IsValid now t \<and> svc [Account t] = Inr (Some a # rest) \<and>
    AuthorizationToken a = Some tk \<and> ExpiresAt_raw a = Some raw \<and> ProxyEndpoint a = Some ep"
  then show "Refresh now svc t =
        (None,
         t\<lparr>Token := tk, ExpiresAt := raw - 6 * 3600 * 1000000000,
           Endpoint := (if HasPrefix ep ''https://'' then drop 8 ep else ep)\<rparr>,
         [[Account t]])"
    by (simp add: Refresh_complete)
next
  assume h: "\<not> IsValid now t \<and> fst (Refresh now svc t) = None"
  then show "\<exists>a rest ep. svc [Account t] = Inr (Some a # rest) \<and>
         AuthorizationToken a = Some (Token (fst (snd (Refresh now svc t)))) \<and>
         ExpiresAt_raw a = Some (ExpiresAt (fst (snd (Refresh now svc t))) + tokenRefreshAfter) \<and>
         ProxyEndpoint a = Some ep \<and>
         Endpoint (fst (snd (Refresh now svc t))) =
           (if HasPrefix ep ''https://'' then drop 8 ep else ep)"
    by (rule Refresh_nil_after_call)
qed

theorem Refresh_fetches_iff_not_valid_witness:
  "IsValid 0 held_manager \<and>
   Refresh 0 (answering (Inl (SdkError ''timeout''))) held_manager = (None, held_manager, []) \<and>
   \<not> IsValid (7 * Hour) held_manager \<and>
   Refresh (7 * Hour) (answering (Inr [Some rotated_record])) held_manager =
     (None, rotated_manager, [[''123456789012'']]) \<and>
   Token rotated_manager = ''QVdTOm5ldw=='' \<and>
   ExpiresAt rotated_manager = 13 * Hour \<and>
   Endpoint rotated_manager = ''123456789012.dkr.ecr-fips.us-east-1.amazonaws.com''"
proof -
  have v: "IsValid 0 held_manager"
    by (simp add: IsValid_def Before_def held_manager_def Hour_def)
  have n: "\<not> IsValid (7 * Hour) held_manager"
    by (simp add: IsValid_def Before_def held_manager_def Hour_def)
  have r: "answering (Inr [Some rotated_record]) [Account held_manager] =
      Inr (Some rotated_record # []) \<and>
      AuthorizationToken rotated_record = Some ''QVdTOm5ldw=='' \<and>
      ExpiresAt_raw rotated_record = Some (19 * Hour) \<and>
      ProxyEndpoint rotated_record =
        Some ''https://123456789012.dkr.ecr-fips.us-east-1.amazonaws.com''"
    by (simp add: answering_def rotated_record_def)
  from Refresh_fetches_iff_not_valid [of 0 held_manager "answering (Inl (SdkError ''timeout''))"] v
  have 1: "Refresh 0 (answering (Inl (SdkError ''timeout''))) held_manager = (None, held_manager, [])"
    by blast
  from Refresh_fetches_iff_not_valid [of "7 * Hour" held_manager
      "answering (Inr [Some rotated_record])" rotated_record "[]" "''QVdTOm5ldw==''" "19 * Hour"
      "''https://123456789012.dkr.ecr-fips.us-east-1.amazonaws.com''"] n r
  have "Refresh (7 * Hour) (answering (Inr [Some rotated_record])) held_manager =
      (None,
       held_manager\<lparr>Token := ''QVdTOm5ldw=='', ExpiresAt := 19 * Hour - 6 * 3600 * 1000000000,
         Endpoint := (if HasPrefix ''https://123456789012.dkr.ecr-fips.us-east-1.amazonaws.com''
                           ''https://''
                      then drop 8 ''https://123456789012.dkr.ecr-fips.us-east-1.amazonaws.com''
                      else ''https://123456789012.dkr.ecr-fips.us-east-1.amazonaws.com'')\<rparr>,
       [[Account held_manager]])"
    by blast
  then have 2: "Refresh (7 * Hour) (answering (Inr [Some rotated_record])) held_manager =
      (None, rotated_manager, [[''123456789012'']])"
    by (simp add: held_manager_def rotated_manager_def Hour_def HasPrefix_def)
  from v 1 n 2 show ?thesis
    by (simp add: rotated_manager_def)
qed

text \<open>
  C3. A call of \<open>Refresh\<close> that returns an error leaves the manager as it was: token,
  endpoint and expiry are those held before. The manager \<open>t\<close> is any manager, so also one
  left by an earlier successful refresh.
\<close>

theorem Refresh_failure_keeps_credential:
  assumes "Refresh now svc t = (Some e, t', calls)"
  shows "t' = t \<and> Token t' = Token t \<and> Endpoint t' = Endpoint t \<and> ExpiresAt t' = ExpiresAt t"
  using Refresh_error_unchanged [OF assms] by simp

theorem Refresh_failure_keeps_credential_witness:
  "Refresh 0 (answering (Inr [Some (full_record (12 * Hour))])) fresh_manager =
     (None, held_manager, [[''123456789012'']]) \<and>
   Refresh (7 * Hour) (answering (Inl (SdkError ''timeout''))) held_manager =
     (Some (SdkError ''timeout''), held_manager, [[''123456789012'']]) \<and>
   Token held_manager = ''QVdTOnRvaw==''"
proof -
  have r: "Refresh 0 (answering (Inr [Some (full_record (12 * Hour))])) fresh_manager =
     (None, held_manager, [[''123456789012'']])"
    by (simp add: Refresh_fresh_ok) (simp add: fresh_manager_def held_manager_def)
  obtain t' where f: "Refresh (7 * Hour) (answering (Inl (SdkError ''timeout''))) held_manager =
     (Some (SdkError ''timeout''), t', [[''123456789012'']])"
    by (simp add: Refresh_def Before_def held_manager_def answering_def Hour_def)
  from Refresh_failure_keeps_credential [OF f] have "t' = held_manager" by simp
  with r f show ?thesis by (simp add: held_manager_def)
qed

lemma Refresh_no_record:
  "\<not> IsValid now t \<Longrightarrow> svc [Account t] = Inr [] \<Longrightarrow>
   Refresh now svc t = (Some (Errorf ''no authorization data returned from ECR''), t, [[Account t]])"
  by (simp add: Refresh_def IsValid_def)

lemma Refresh_nil_record:
  "\<not> IsValid now t \<Longrightarrow> svc [Account t] = Inr (None # rest) \<Longrightarrow>
   Refresh now svc t = (Some (Errorf ''authorization data is nil''), t, [[Account t]])"
  by (simp add: Refresh_def IsValid_def)

lemma Refresh_nil_token:
  "\<not> IsValid now t \<Longrightarrow> svc [Account t] = Inr (Some a # rest) \<Longrightarrow> AuthorizationToken a = None \<Longrightarrow>
   Refresh now svc t = (Some (Errorf ''authorization token is nil''), t, [[Account t]])"
  by (simp add: Refresh_def IsValid_def)

lemma Refresh_nil_expiry:
  "\<not> IsValid now t \<Longrightarrow> svc [Account t] = Inr (Some a # rest) \<Longrightarrow> AuthorizationToken a \<noteq> None \<Longrightarrow>
   ExpiresAt_raw a = None \<Longrightarrow>
   Refresh now svc t = (Some (Errorf ''expiration time is nil''), t, [[Account t]])"
  by (auto simp: Refresh_def IsValid_def)

lemma Refresh_nil_endpoint:
  "\<not> IsValid now t \<Longrightarrow> svc [Account t] = Inr (Some a # rest) \<Longrightarrow> AuthorizationToken a \<noteq> None \<Longrightarrow>
   ExpiresAt_raw a \<noteq> None \<Longrightarrow> ProxyEndpoint a = None \<Longrightarrow>
   Refresh now svc t = (Some (Errorf ''proxy endpoint is nil''), t, [[Account t]])"
  by (auto simp: Refresh_def IsValid_def)

text \<open>
  C9. Whenever \<open>Refresh\<close> calls upstream (the held credential is not valid) and the output
  has no record, a nil record, or a record whose token, expiry or endpoint is nil, the
  call returns an error and the manager is unchanged. The error is the one of the first
  thing missing, in the order record, token, expiry, endpoint, and the five errors are
  pairwise different.
\<close>

theorem Refresh_incomplete_response:
  assumes "\<not> IsValid now t" and "svc [Account t] = Inr result"
  shows
   "(result = [] \<longrightarrow> Refresh now svc t =
        (Some (Errorf ''no authorization data returned from ECR''), t, [[Account t]])) \<and>
    (\<forall>rest. result = None # rest \<longrightarrow> Refresh now svc t =
        (Some (Errorf ''authorization data is nil''), t, [[Account t]])) \<and>
    (\<forall>a rest. result = Some a # rest \<and> AuthorizationToken a = None \<longrightarrow> Refresh now svc t =
        (Some (Errorf ''authorization token is nil''), t, [[Account t]])) \<and>
    (\<forall>a rest. result = Some a # rest \<and> AuthorizationToken a \<noteq> None \<and> ExpiresAt_raw a = None
        \<longrightarrow> Refresh now svc t =
        (Some (Errorf ''expiration time is nil''), t, [[Account t]])) \<and>
    (\<forall>a rest. result = Some a # rest \<and> AuthorizationToken a \<noteq> None \<and> ExpiresAt_raw a \<noteq> None \<and>
        ProxyEndpoint a = None \<longrightarrow> Refresh now svc t =
        (Some (Errorf ''proxy endpoint is nil''), t, [[Account t]])) \<and>
    (\<forall>a rest. result = [] \<or> result = None # rest \<or>
        (result = Some a # rest \<and>
           (AuthorizationToken a = None \<or> ExpiresAt_raw a = None \<or> ProxyEndpoint a = None))
        \<longrightarrow> fst (Refresh now svc t) \<noteq> None \<and> fst (snd (Refresh now svc t)) = t) \<and>
    distinct [Errorf ''no authorization data returned from ECR'',
              Errorf ''authorization data is nil'', Errorf ''authorization token is nil'',
              Errorf ''expiration time is nil'', Errorf ''proxy endpoint is nil'']"
proof (intro conjI allI impI)
  assume "result = []"
  with assms show "Refresh now svc t =
      (Some (Errorf ''no authorization data returned from ECR''), t, [[Account t]])"
    by (simp add: Refresh_no_record)
next
  fix rest assume "result = None # rest"
  with assms show "Refresh now svc t = (Some (Errorf ''authorization data is nil''), t, [[Account t]])"
    by (simp add: Refresh_nil_record)
next
  fix a rest assume "result = Some a # rest \<and> AuthorizationToken a = None"
  with assms show "Refresh now svc t = (Some (Errorf ''authorization token is nil''), t, [[Account t]])"
    by (simp add: Refresh_nil_token)
next
  fix a rest
  assume "result = Some a # rest \<and> AuthorizationToken a \<noteq> None \<and> ExpiresAt_raw a = None"
  with assms show "Refresh now svc t = (Some (Errorf ''expiration time is nil''), t, [[Account t]])"
    using Refresh_nil_expiry [of now t svc a rest] by simp
next
  fix a rest
  assume "result = Some a # rest \<and> AuthorizationToken a \<noteq> None \<and> ExpiresAt_raw a \<noteq> None \<and>
          ProxyEndpoint a = None"
  with assms show "Refresh now svc t = (Some (Errorf ''proxy endpoint is nil''), t, [[Account t]])"
    using Refresh_nil_endpoint [of now t svc a rest] by simp
next
  fix a rest
  assume h: "result = [] \<or> result = None # rest \<or>
        (result = Some a # rest \<and>
           (AuthorizationToken a = None \<or> ExpiresAt_raw a = None \<or> ProxyEndpoint a = None))"
  from h assms show "fst (Refresh now svc t) \<noteq> None"
    by (auto simp: Refresh_def IsValid_def Let_def split: option.splits)
  from h assms show "fst (snd (Refresh now svc t)) = t"
    by (auto simp: Refresh_def IsValid_def Let_def split: option.splits)
next
  show "distinct [Errorf ''no authorization data returned from ECR'',
              Errorf ''authorization data is nil'', Errorf ''authorization token is nil'',
              Errorf ''expiration time is nil'', Errorf ''proxy endpoint is nil'']"
    by simp
qed

theorem Refresh_incomplete_response_witness:
  "\<not> IsValid (7 * Hour) held_manager \<and>
   Refresh (7 * Hour) (answering (Inr [])) held_manager =
     (Some (Errorf ''no authorization data returned from ECR''), held_manager, [[''123456789012'']]) \<and>
   Refresh (7 * Hour) (answering (Inr [None])) held_manager =
     (Some (Errorf ''authorization data is nil''), held_manager, [[''123456789012'']]) \<and>
   Refresh (7 * Hour) (answering (Inr [Some (partial_record None (Some (19 * Hour)) (Some ''h''))]))
     held_manager =
     (Some (Errorf ''authorization token is nil''), held_manager, [[''123456789012'']]) \<and>
   Refresh (7 * Hour) (answering (Inr [Some (partial_record (Some ''tk'') None (Some ''h''))]))
     held_manager =
     (Some (Errorf ''expiration time is nil''), held_manager, [[''123456789012'']]) \<and>
   Refresh (7 * Hour) (answering (Inr [Some (partial_record (Some ''tk'') (Some (19 * Hour)) None)]))
     held_manager =
     (Some (Errorf ''proxy endpoint is nil''), held_manager, [[''123456789012'']])"
proof -
  have n: "\<not> IsValid (7 * Hour) held_manager"
    by (simp add: IsValid_def Before_def held_manager_def Hour_def)
  have a: "Account held_manager = ''123456789012''"
    by (simp add: held_manager_def)
  have s: "answering (Inr r) [Account held_manager] = Inr r" for r
    by (simp add: answering_def)
  from Refresh_incomplete_response [of "7 * Hour" held_manager
      "answering (Inr ([]))" "[]"] n s
  have 1: "Refresh (7 * Hour) (answering (Inr [])) held_manager =
     (Some (Errorf ''no authorization data returned from ECR''), held_manager, [[''123456789012'']])"
    by (simp add: a)
  from Refresh_incomplete_response [of "7 * Hour" held_manager
      "answering (Inr ([None]))" "[None]"] n s
  have 2: "Refresh (7 * Hour) (answering (Inr [None])) held_manager =
     (Some (Errorf ''authorization data is nil''), held_manager, [[''123456789012'']])"
    by (simp add: a)
  from Refresh_incomplete_response [of "7 * Hour" held_manager
      "answering (Inr ([Some (partial_record None (Some (19 * Hour)) (Some ''h''))]))" "[Some (partial_record None (Some (19 * Hour)) (Some ''h''))]"] n s
  have 3: "Refresh (7 * Hour)
      (answering (Inr [Some (partial_record None (Some (19 * Hour)) (Some ''h''))])) held_manager =
     (Some (Errorf ''authorization token is nil''), held_manager, [[''123456789012'']])"
    by (simp add: a partial_record_def)
  from Refresh_incomplete_response [of "7 * Hour" held_manager
      "answering (Inr ([Some (partial_record (Some ''tk'') None (Some ''h''))]))" "[Some (partial_record (Some ''tk'') None (Some ''h''))]"] n s
  have 4: "Refresh (7 * Hour)
      (answering (Inr [Some (partial_record (Some ''tk'') None (Some ''h''))])) held_manager =
     (Some (Errorf ''expiration time is nil''), held_manager, [[''123456789012'']])"
    by (simp add: a partial_record_def)
  from Refresh_incomplete_response [of "7 * Hour" held_manager
      "answering (Inr ([Some (partial_record (Some ''tk'') (Some (19 * Hour)) None)]))" "[Some (partial_record (Some ''tk'') (Some (19 * Hour)) None)]"] n s
  have 5: "Refresh (7 * Hour)
      (answering (Inr [Some (partial_record (Some ''tk'') (Some (19 * Hour)) None)])) held_manager =
     (Some (Errorf ''proxy endpoint is nil''), held_manager, [[''123456789012'']])"
    by (simp add: a partial_record_def)
  from n 1 2 3 4 5 show ?thesis by simp
qed

section \<open>Properties of the access matcher\<close>

subsection \<open>The entries of the list\<close>

lemma IsSpace_no_comma: "IsSpace r \<Longrightarrow> CHR '','' \<notin> set r"
  by (auto simp: IsSpace_def split: list.splits)

lemma leadingSpace_IsSpace:
  "leadingSpace s \<noteq> 0 \<Longrightarrow> IsSpace (take (leadingSpace s) s) \<and> leadingSpace s \<le> length s"
  by (auto simp: leadingSpace_def split: if_splits)

lemma trailingSpace_IsSpace:
  "trailingSpace s \<noteq> 0 \<Longrightarrow>
   IsSpace (drop (length s - trailingSpace s) s) \<and> trailingSpace s \<le> length s"
  by (auto simp: trailingSpace_def split: if_splits)

lemma comma_TrimLeftSpace: "CHR '','' \<in> set s \<Longrightarrow> CHR '','' \<in> set (TrimLeftSpace s)"
proof (induction s rule: TrimLeftSpace.induct)
  case (1 s)
  show ?case
  proof (cases "leadingSpace s = 0")
    case True
    with "1.prems" show ?thesis by (simp add: TrimLeftSpace.simps)
  next
    case False
    from leadingSpace_IsSpace [OF False] have "CHR '','' \<notin> set (take (leadingSpace s) s)"
      by (simp add: IsSpace_no_comma)
    moreover have "set s = set (take (leadingSpace s) s) \<union> set (drop (leadingSpace s) s)"
      by (metis append_take_drop_id set_append)
    ultimately have "CHR '','' \<in> set (drop (leadingSpace s) s)"
      using "1.prems" by blast
    with "1.IH" [OF False] False show ?thesis
      by (subst TrimLeftSpace.simps) simp
  qed
qed

lemma comma_TrimRightSpace: "CHR '','' \<in> set s \<Longrightarrow> CHR '','' \<in> set (TrimRightSpace s)"
proof (induction s rule: TrimRightSpace.induct)
  case (1 s)
  show ?case
  proof (cases "trailingSpace s = 0")
    case True
    with "1.prems" show ?thesis by (simp add: TrimRightSpace.simps)
  next
    case False
    from trailingSpace_IsSpace [OF False]
    have "CHR '','' \<notin> set (drop (length s - trailingSpace s) s)"
      by (simp add: IsSpace_no_comma)
    moreover have "set s = set (take (length s - trailingSpace s) s) \<union>
        set (drop (length s - trailingSpace s) s)"
      by (metis append_take_drop_id set_append)
    ultimately have "CHR '','' \<in> set (take (length s - trailingSpace s) s)"
      using "1.prems" by blast
    with "1.IH" [OF False] False show ?thesis
      by (subst TrimRightSpace.simps) simp
  qed
qed

lemma TrimSpace_empty_no_comma: "TrimSpace s = '''' \<Longrightarrow> CHR '','' \<notin> set s"
  using comma_TrimRightSpace [of "TrimLeftSpace s"] comma_TrimLeftSpace [of s]
  by (auto simp: TrimSpace_def)

lemma genSplit_no_comma:
  "CHR '','' \<notin> set s \<Longrightarrow> genSplit 0 '','' acc s = [rev acc @ s]"
  by (induction s arbitrary: acc) (auto simp: HasPrefix_def)

lemma Split_no_comma: "CHR '','' \<notin> set s \<Longrightarrow> Split s '','' = [s]"
  by (simp add: Split_def genSplit_no_comma)

lemma whitelistEntry_blank: "TrimSpace e = '''' \<Longrightarrow> whitelistEntry e = None"
  by (simp add: whitelistEntry_def ReplaceAll_def)

lemma anyContains_iff: "anyContains nets ip = (\<exists>n \<in> set nets. IPNet_Contains n ip)"
  by (induction nets) auto

lemma set_ipNets_of: "set (ipNets_of es) = {n. \<exists>e \<in> set es. whitelistEntry e = Some n}"
  by (induction es) (auto split: option.splits)

lemma ipNets_of_blank: "TrimSpace spec = '''' \<Longrightarrow> ipNets_of (Split spec '','') = []"
  by (simp add: Split_no_comma TrimSpace_empty_no_comma whitelistEntry_blank)

lemma IsIPAllowed_entries:
  "IsIPAllowed a spec =
     (case ParseIP (TrimSpace (remoteHost a)) of
        None \<Rightarrow> False
      | Some ip \<Rightarrow> \<exists>n \<in> set (ipNets_of (Split spec '','')). IPNet_Contains n (normalize4 ip))"
  by (auto simp: IsIPAllowed_def ipNets_of_blank anyContains_iff split: option.splits)

lemma IsIPAllowed_same_nets:
  "set (ipNets_of (Split spec '','')) = set (ipNets_of (Split spec' '','')) \<Longrightarrow>
   IsIPAllowed a spec = IsIPAllowed a spec'"
  by (simp add: IsIPAllowed_entries split: option.splits)

lemma ipNets_of_append: "ipNets_of (xs @ ys) = ipNets_of xs @ ipNets_of ys"
  by (induction xs) (auto split: option.splits)

subsection \<open>Host and port\<close>

lemma IndexByteString_None_iff: "IndexByteString s c = None \<longleftrightarrow> c \<notin> set s"
  by (induction s) auto

lemma IndexByteString_less: "IndexByteString s c = Some k \<Longrightarrow> k < length s"
  by (induction s arbitrary: k) (auto split: if_splits)

lemma IndexByteString_first:
  "c \<notin> set xs \<Longrightarrow> IndexByteString (xs @ c # ys) c = Some (length xs)"
  by (induction xs) auto

lemma LastIndexByteString_None_iff: "LastIndexByteString s c = None \<longleftrightarrow> c \<notin> set s"
  by (simp add: LastIndexByteString_def IndexByteString_None_iff)

lemma LastIndexByteString_last:
  "c \<notin> set ys \<Longrightarrow> LastIndexByteString (xs @ c # ys) c = Some (length xs)"
  using IndexByteString_first [of c "rev ys" "rev xs"]
  by (simp add: LastIndexByteString_def)

lemma SplitHostPort_bracket_port:
  assumes "CHR ''['' \<notin> set h" "CHR '']'' \<notin> set h"
    and "CHR '':'' \<notin> set p" "CHR ''['' \<notin> set p" "CHR '']'' \<notin> set p"
  shows "SplitHostPort (''['' @ h @ '']:'' @ p) = Inr (h, p)"
proof -
  let ?hp = "''['' @ h @ '']:'' @ p"
  have l: "LastIndexByteString ?hp CHR '':'' = Some (length h + 2)"
    using LastIndexByteString_last [of "CHR '':''" p "''['' @ h @ '']''"] assms(3) by simp
  have i: "IndexByteString ?hp CHR '']'' = Some (length h + 1)"
    using IndexByteString_first [of "CHR '']''" "''['' @ h" "'':'' @ p"] assms(2) by simp
  have o: "IndexByteString (drop 1 ?hp) CHR ''['' = None"
    using assms by (simp add: IndexByteString_None_iff)
  have c: "IndexByteString (drop (length h + 2) ?hp) CHR '']'' = None"
    using assms by (simp add: IndexByteString_None_iff)
  show ?thesis
    using l i o c by (simp add: SplitHostPort_def splitTail_def)
qed

lemma SplitHostPort_host_port:
  assumes "CHR '':'' \<notin> set h" "CHR ''['' \<notin> set h" "CHR '']'' \<notin> set h"
    and "CHR '':'' \<notin> set p" "CHR ''['' \<notin> set p" "CHR '']'' \<notin> set p"
  shows "SplitHostPort (h @ '':'' @ p) = Inr (h, p)"
proof -
  let ?hp = "h @ '':'' @ p"
  have l: "LastIndexByteString ?hp CHR '':'' = Some (length h)"
    using LastIndexByteString_last [of "CHR '':''" p h] assms(4) by simp
  have b: "take 1 ?hp \<noteq> ''[''"
    using assms(2) by (cases h) auto
  have i: "IndexByteString h CHR '':'' = None"
    using assms(1) by (simp add: IndexByteString_None_iff)
  have o: "IndexByteString ?hp CHR ''['' = None" "IndexByteString ?hp CHR '']'' = None"
    using assms by (simp_all add: IndexByteString_None_iff)
  show ?thesis
    using l b i o by (simp add: SplitHostPort_def splitTail_def)
qed

lemma splitTail_close:
  "IndexByteString (drop k hp) CHR '']'' \<noteq> None \<Longrightarrow> \<exists>e. splitTail hp host i j k = Inl e"
  by (simp add: splitTail_def)

lemma SplitHostPort_brackets_fail:
  assumes "hp \<noteq> []" and "last hp = CHR '']''" and "take 1 hp = ''[''"
  shows "\<exists>e. SplitHostPort hp = Inl e"
proof (cases "LastIndexByteString hp CHR '':''")
  case None
  then show ?thesis by (simp add: SplitHostPort_def)
next
  case (Some i)
  from assms(1,2) have "CHR '']'' \<in> set hp"
    using last_in_set by fastforce
  then obtain e where e: "IndexByteString hp CHR '']'' = Some e"
    by (cases "IndexByteString hp CHR '']''") (auto simp: IndexByteString_None_iff)
  then have el: "e < length hp" by (rule IndexByteString_less)
  show ?thesis
  proof (cases "e + 1 = length hp")
    case True
    with Some e assms(3) show ?thesis by (simp add: SplitHostPort_def)
  next
    case False
    with el have lt: "e + 1 < length hp" by simp
    then have ne: "drop (e + 1) hp \<noteq> []" by simp
    then have "last (drop (e + 1) hp) \<in> set (drop (e + 1) hp)" by (rule last_in_set)
    moreover have "last (drop (e + 1) hp) = CHR '']''"
      using lt assms(2) by (simp add: last_drop)
    ultimately have "IndexByteString (drop (e + 1) hp) CHR '']'' \<noteq> None"
      by (simp add: IndexByteString_None_iff)
    then obtain x where
      "splitTail hp (take (e - 1) (drop 1 hp)) i 1 (e + 1) = Inl x"
      using splitTail_close by blast
    with Some e False assms(3) show ?thesis
      by (auto simp: SplitHostPort_def)
  qed
qed

lemma SplitHostPort_bracket_only: "\<exists>e. SplitHostPort (''['' @ h @ '']'') = Inl e"
  by (rule SplitHostPort_brackets_fail) simp_all

subsection \<open>Trimming, and texts that are no address\<close>

lemma IsSpace_not_open: "\<not> IsSpace (CHR ''['' # r)"
  by (auto simp: IsSpace_def split: list.splits)

lemma IsSpace_last_not_close: "IsSpace r \<Longrightarrow> r \<noteq> [] \<and> last r \<noteq> CHR '']''"
  by (auto simp: IsSpace_def split: list.splits)

lemma leadingSpace_open: "leadingSpace (CHR ''['' # t) = 0"
  by (cases t; cases "tl t") (auto simp: leadingSpace_def IsSpace_not_open)

lemma trailingSpace_close: "trailingSpace (t @ '']'') = 0"
proof (rule ccontr)
  let ?s = "t @ '']''"
  assume n: "trailingSpace ?s \<noteq> 0"
  from trailingSpace_IsSpace [OF n]
  have s: "IsSpace (drop (length ?s - trailingSpace ?s) ?s)"
    and l: "trailingSpace ?s \<le> length ?s"
    by blast+
  from n l have "length ?s - trailingSpace ?s < length ?s"
    by simp
  then have "last (drop (length ?s - trailingSpace ?s) ?s) = last ?s"
    by (rule last_drop)
  with IsSpace_last_not_close [OF s] show False
    by simp
qed

lemma TrimLeftSpace_fix: "leadingSpace s = 0 \<Longrightarrow> TrimLeftSpace s = s"
  by (simp add: TrimLeftSpace.simps)

lemma TrimRightSpace_fix: "trailingSpace s = 0 \<Longrightarrow> TrimRightSpace s = s"
  by (simp add: TrimRightSpace.simps)

lemma leadingSpace_TrimLeftSpace: "leadingSpace (TrimLeftSpace s) = 0"
proof (induction s rule: TrimLeftSpace.induct)
  case (1 s)
  then show ?case
    by (cases "leadingSpace s = 0") (simp_all add: TrimLeftSpace.simps [of s])
qed

lemma trailingSpace_TrimRightSpace: "trailingSpace (TrimRightSpace s) = 0"
proof (induction s rule: TrimRightSpace.induct)
  case (1 s)
  then show ?case
    by (cases "trailingSpace s = 0") (simp_all add: TrimRightSpace.simps [of s])
qed

lemma TrimRightSpace_prefix: "\<exists>q. s = TrimRightSpace s @ q"
proof (induction s rule: TrimRightSpace.induct)
  case (1 s)
  show ?case
  proof (cases "trailingSpace s = 0")
    case True
    then show ?thesis by (simp add: TrimRightSpace_fix)
  next
    case False
    from "1.IH" [OF False] obtain q where
      q: "take (length s - trailingSpace s) s =
            TrimRightSpace (take (length s - trailingSpace s) s) @ q"
      by blast
    have "s = take (length s - trailingSpace s) s @ drop (length s - trailingSpace s) s"
      by simp
    with q have "s = TrimRightSpace (take (length s - trailingSpace s) s) @
        (q @ drop (length s - trailingSpace s) s)"
      by (metis append.assoc)
    with False show ?thesis
      by (subst TrimRightSpace.simps) auto
  qed
qed

lemma leadingSpace_prefix: "leadingSpace (r @ q) = 0 \<Longrightarrow> leadingSpace r = 0"
  by (auto simp: leadingSpace_def split: if_splits)

lemma TrimSpace_idem: "TrimSpace (TrimSpace s) = TrimSpace s"
proof -
  obtain q where q: "TrimLeftSpace s = TrimRightSpace (TrimLeftSpace s) @ q"
    using TrimRightSpace_prefix by blast
  have "leadingSpace (TrimRightSpace (TrimLeftSpace s) @ q) = 0"
    using leadingSpace_TrimLeftSpace [of s] q by simp
  then have "leadingSpace (TrimRightSpace (TrimLeftSpace s)) = 0"
    by (rule leadingSpace_prefix)
  then show ?thesis
    by (simp add: TrimSpace_def TrimLeftSpace_fix TrimRightSpace_fix trailingSpace_TrimRightSpace)
qed

lemma TrimSpace_bracketed: "TrimSpace (''['' @ h @ '']'') = ''['' @ h @ '']''"
proof -
  have "leadingSpace (''['' @ h @ '']'') = 0"
    using leadingSpace_open [of "h @ '']''"] by simp
  moreover have "trailingSpace (''['' @ h @ '']'') = 0"
    using trailingSpace_close [of "''['' @ h"] by simp
  ultimately show ?thesis
    by (simp add: TrimSpace_def TrimLeftSpace_fix TrimRightSpace_fix)
qed

lemma ParseAddr_scan_cases:
  "ParseAddr_scan s r = None \<or> ParseAddr_scan s r = map_option Addr4 (parseIPv4 s) \<or>
   ParseAddr_scan s r = parseIPv6 s"
  by (induction r) auto

lemma parseIPv4_open: "parseIPv4 (CHR ''['' # t) = None"
  by (simp add: parseIPv4_def isDigit_def)

lemma hexField_open: "hexField 0 0 (CHR ''['' # t) = Some (0, 0)"
  by (simp add: hexval_def)

lemma parseIPv6_loop_open: "parseIPv6_loop 0 ell ip (CHR ''['' # t) = None"
  by (subst parseIPv6_loop.simps) (simp add: hexval_def)

lemma parseIPv6_open: "parseIPv6 (CHR ''['' # t) = None"
proof (cases "IndexByteString (CHR ''['' # t) CHR ''%''")
  case None
  then show ?thesis
    by (simp add: parseIPv6_def parseIPv6_loop_open)
next
  case (Some p)
  then obtain p' where p: "p = Suc p'"
    by (cases p) (auto split: if_splits)
  with Some show ?thesis
    by (simp add: parseIPv6_def parseIPv6_loop_open Let_def)
qed

lemma ParseIP_open: "ParseIP (CHR ''['' # t) = None"
  using ParseAddr_scan_cases [of "CHR ''['' # t" "CHR ''['' # t"]
  by (auto simp: ParseIP_def ParseAddr_def parseIPv4_open parseIPv6_open)

lemma IsIPAllowed_bracketed_no_port: "\<not> IsIPAllowed (''['' @ h @ '']'') spec"
proof -
  obtain e where "SplitHostPort (''['' @ h @ '']'') = Inl e"
    using SplitHostPort_bracket_only by blast
  then have "remoteHost (''['' @ h @ '']'') = ''['' @ h @ '']''"
    using TrimSpace_bracketed [of h] by (simp add: remoteHost_def)
  then have "ParseIP (TrimSpace (remoteHost (''['' @ h @ '']''))) = None"
    using TrimSpace_bracketed [of h] ParseIP_open [of "h @ '']''"] by simp
  then show ?thesis
    by (simp add: IsIPAllowed_entries)
qed

lemma IsIPAllowed_same_host:
  "TrimSpace (remoteHost a) = TrimSpace (remoteHost b) \<Longrightarrow> IsIPAllowed a spec = IsIPAllowed b spec"
  by (simp add: IsIPAllowed_entries)

lemma IsIPAllowed_same_ip:
  "ParseIP (TrimSpace (remoteHost a)) = Some x \<Longrightarrow> ParseIP (TrimSpace (remoteHost b)) = Some y \<Longrightarrow>
   normalize4 x = normalize4 y \<Longrightarrow> IsIPAllowed a spec = IsIPAllowed b spec"
  by (simp add: IsIPAllowed_entries)


lemma remoteHost_no_port_raw:
  "SplitHostPort a = Inl e \<Longrightarrow> SplitHostPort b = Inr (a, p) \<Longrightarrow>
   TrimSpace (remoteHost a) = TrimSpace (remoteHost b)"
  by (simp add: remoteHost_def TrimSpace_idem)

subsection \<open>Dotted IPv4 addresses\<close>

lemma IsSpace_first_byte:
  "IsSpace (c # r) \<Longrightarrow> (of_char c :: nat) \<le> 32 \<or> (of_char c :: nat) \<ge> 128"
  by (auto simp: IsSpace_def split: list.splits)

lemma IsSpace_last_byte:
  "IsSpace r \<Longrightarrow> r \<noteq> [] \<and> ((of_char (last r) :: nat) \<le> 32 \<or> (of_char (last r) :: nat) \<ge> 128)"
  by (auto simp: IsSpace_def split: list.splits)

lemma leadingSpace_printable:
  assumes "32 < (of_char c :: nat)" and "(of_char c :: nat) < 128"
  shows "leadingSpace (c # t) = 0"
proof (rule ccontr)
  assume n: "leadingSpace (c # t) \<noteq> 0"
  from leadingSpace_IsSpace [OF n] obtain k where "IsSpace (take (Suc k) (c # t))"
    by (cases "leadingSpace (c # t)") (use n in auto)
  then have "IsSpace (c # take k t)" by simp
  from IsSpace_first_byte [OF this] assms show False by simp
qed

lemma trailingSpace_printable:
  assumes "32 < (of_char c :: nat)" and "(of_char c :: nat) < 128"
  shows "trailingSpace (t @ [c]) = 0"
proof (rule ccontr)
  let ?s = "t @ [c]"
  assume n: "trailingSpace ?s \<noteq> 0"
  from trailingSpace_IsSpace [OF n]
  have s: "IsSpace (drop (length ?s - trailingSpace ?s) ?s)"
    and l: "trailingSpace ?s \<le> length ?s"
    by blast+
  from n l have "length ?s - trailingSpace ?s < length ?s"
    by simp
  then have "last (drop (length ?s - trailingSpace ?s) ?s) = last ?s"
    by (rule last_drop)
  with IsSpace_last_byte [OF s] assms show False
    by simp
qed

lemma TrimSpace_printable_ends:
  assumes "s \<noteq> []"
    and "32 < (of_char (hd s) :: nat)" "(of_char (hd s) :: nat) < 128"
    and "32 < (of_char (last s) :: nat)" "(of_char (last s) :: nat) < 128"
  shows "TrimSpace s = s"
proof -
  from assms(1) obtain c t where ct: "s = c # t" by (cases s) auto
  from assms(1) obtain t' c' where tc: "s = t' @ [c']" by (cases s rule: rev_cases) auto
  have "leadingSpace s = 0"
    using leadingSpace_printable [of c t] assms(2,3) ct by simp
  moreover have "trailingSpace s = 0"
    using trailingSpace_printable [of c' t'] assms(4,5) tc by simp
  ultimately show ?thesis
    by (simp add: TrimSpace_def TrimLeftSpace_fix TrimRightSpace_fix)
qed

text \<open>What a successful parseIPv4 says about its input.\<close>

lemma parseIPv4_loop_chars:
  "parseIPv4_loop s i f v dl r = Some b \<Longrightarrow> \<forall>c \<in> set r. isDigit c \<or> c = CHR ''.''"
  by (induction r arbitrary: i f v dl) (auto split: if_splits)

lemma parseIPv4_loop_length:
  "parseIPv4_loop s i f v dl r = Some b \<Longrightarrow> length f \<le> 3 \<Longrightarrow> length b = 4"
proof (induction r arbitrary: i f v dl)
  case Nil
  then show ?case by (auto split: if_splits)
next
  case (Cons c r)
  from Cons.prems show ?case
    by (auto split: if_splits dest!: Cons.IH)
qed

lemma parseIPv4_loop_dot:
  "parseIPv4_loop s i f v dl r = Some b \<Longrightarrow> length f < 3 \<Longrightarrow> CHR ''.'' \<in> set r"
  by (induction r arbitrary: i f v dl) (auto split: if_splits)

lemma parseIPv4_loop_last:
  "parseIPv4_loop s i f v dl r = Some b \<Longrightarrow> i + length r = length s \<Longrightarrow> r \<noteq> [] \<Longrightarrow>
   isDigit (last r)"
proof (induction r arbitrary: i f v dl)
  case Nil
  then show ?case by simp
next
  case (Cons c r)
  show ?case
  proof (cases "r = []")
    case True
    with Cons.prems show ?thesis by (auto split: if_splits)
  next
    case False
    with Cons.prems Cons.IH show ?thesis
      by (auto split: if_splits)
  qed
qed

lemma parseIPv4_first: "parseIPv4 d = Some b \<Longrightarrow> d \<noteq> [] \<and> isDigit (hd d)"
  by (cases d) (auto simp: parseIPv4_def split: if_splits)

lemma isDigit_printable: "isDigit c \<Longrightarrow> 32 < (of_char c :: nat) \<and> (of_char c :: nat) < 128"
  by (simp add: isDigit_def)

lemma isDigit_not_special:
  "isDigit c \<Longrightarrow> c \<noteq> CHR ''.'' \<and> c \<noteq> CHR '':'' \<and> c \<noteq> CHR ''%'' \<and> c \<noteq> CHR ''['' \<and> c \<noteq> CHR '']''"
  by (auto simp: isDigit_def)

lemma parseIPv4_facts:
  assumes "parseIPv4 d = Some b"
  shows "\<forall>c \<in> set d. isDigit c \<or> c = CHR ''.''" and "length b = 4" and "CHR ''.'' \<in> set d"
    and "d \<noteq> []" and "isDigit (hd d)" and "isDigit (last d)"
proof -
  from assms have l: "parseIPv4_loop d 0 [] 0 0 d = Some b" by (simp add: parseIPv4_def)
  from parseIPv4_loop_chars [OF l] show "\<forall>c \<in> set d. isDigit c \<or> c = CHR ''.''" .
  from parseIPv4_loop_length [OF l] show "length b = 4" by simp
  from parseIPv4_loop_dot [OF l] show "CHR ''.'' \<in> set d" by simp
  from parseIPv4_first [OF assms] show ne: "d \<noteq> []" and "isDigit (hd d)" by simp_all
  from parseIPv4_loop_last [OF l] ne show "isDigit (last d)" by simp
qed

lemma parseIPv4_no_special:
  assumes "parseIPv4 d = Some b"
  shows "CHR '':'' \<notin> set d" "CHR ''%'' \<notin> set d" "CHR ''['' \<notin> set d" "CHR '']'' \<notin> set d"
  using parseIPv4_facts(1) [OF assms] isDigit_not_special by (auto simp: isDigit_def)

lemma TrimSpace_parseIPv4: "parseIPv4 d = Some b \<Longrightarrow> TrimSpace d = d"
  using parseIPv4_facts(4,5,6) [of d b] isDigit_printable
  by (intro TrimSpace_printable_ends) auto

lemma ParseAddr_scan_dotted:
  "\<forall>c \<in> set r. isDigit c \<or> c = CHR ''.'' \<Longrightarrow> CHR ''.'' \<in> set r \<Longrightarrow>
   ParseAddr_scan s r = map_option Addr4 (parseIPv4 s)"
  by (induction r) (auto dest: isDigit_not_special)

lemma ParseIP_dotted: "parseIPv4 d = Some b \<Longrightarrow> ParseIP d = Some (v4InV6Prefix @ b)"
  using parseIPv4_facts(1,3) [of d b]
  by (simp add: ParseIP_def ParseAddr_def ParseAddr_scan_dotted)

subsection \<open>IPv4-mapped addresses\<close>

lemma parseIPv4_loop_digits:
  "parseIPv4_loop s i f v dl (ds @ r) = Some b \<Longrightarrow> \<forall>c \<in> set ds. isDigit c \<Longrightarrow>
   (dl = 0 \<longrightarrow> v = 0) \<Longrightarrow> (2 \<le> dl \<longrightarrow> 10 ^ (dl - 1) \<le> v) \<Longrightarrow> v \<le> 255 \<Longrightarrow>
   dl + length ds \<le> 3"
proof (induction ds arbitrary: i v dl)
  case Nil
  show ?case
  proof (rule ccontr)
    assume "\<not> dl + length ([] :: string) \<le> 3"
    then have d: "3 \<le> dl - 1" and "2 \<le> dl" by simp_all
    with Nil.prems have "10 ^ (dl - 1) \<le> v" by simp
    moreover from d have "(10::nat) ^ 3 \<le> 10 ^ (dl - 1)"
      by (intro power_increasing) simp_all
    ultimately show False using Nil.prems(5) by simp
  qed
next
  case (Cons c cs)
  let ?v = "v * 10 + (of_char c - 48)"
  from Cons.prems(2) have dc: "isDigit c" by simp
  with Cons.prems(1) have nz: "\<not> (dl = 1 \<and> v = 0)" and le: "?v \<le> 255"
    and rec: "parseIPv4_loop s (i + 1) f ?v (dl + 1) (cs @ r) = Some b"
    by (auto split: if_splits)
  have inv: "2 \<le> dl + 1 \<longrightarrow> 10 ^ (dl + 1 - 1) \<le> ?v"
  proof
    assume "2 \<le> dl + 1"
    then have "dl = 1 \<or> 2 \<le> dl" by arith
    then show "10 ^ (dl + 1 - 1) \<le> ?v"
    proof
      assume "dl = 1"
      with nz show ?thesis by simp
    next
      assume d2: "2 \<le> dl"
      with Cons.prems(4) have "10 ^ (dl - 1) \<le> v" by simp
      then have "10 * 10 ^ (dl - 1) \<le> v * 10" by simp
      moreover from d2 have "(10::nat) * 10 ^ (dl - 1) = 10 ^ dl"
        by (cases dl) simp_all
      ultimately show ?thesis by simp
    qed
  qed
  from Cons.IH [OF rec _ _ inv le] Cons.prems(2) show ?case by simp
qed

lemma hexval_digit: "isDigit c \<Longrightarrow> hexval c = Some (of_char c - 48) \<and> (of_char c :: nat) - 48 \<le> 9"
  by (auto simp: hexval_def isDigit_def Let_def)

lemma hexField_digits:
  "\<forall>c \<in> set ds. isDigit c \<Longrightarrow> off + length ds \<le> 4 \<Longrightarrow> acc < 16 ^ off \<Longrightarrow>
   \<exists>acc'. hexField off acc (ds @ CHR ''.'' # rest) = Some (off + length ds, acc')"
proof (induction ds arbitrary: off acc)
  case Nil
  show ?case by (simp add: hexval_def)
next
  case (Cons c cs)
  from Cons.prems(1) have dc: "isDigit c" by simp
  from hexval_digit [OF dc] obtain v where v: "hexval c = Some v" "v \<le> 9" by blast
  from Cons.prems(2) have o: "off \<le> 3" by simp
  then have "(16::nat) ^ off \<le> 16 ^ 3" by (intro power_increasing) simp_all
  with Cons.prems(3) have a: "acc < 4096" by simp
  with v have b: "\<not> acc * 16 + v > 65535" by simp
  from Cons.prems(3) have "acc + 1 \<le> 16 ^ off" by simp
  then have "(acc + 1) * 16 \<le> 16 ^ off * 16" by (rule mult_le_mono1)
  with v have c: "acc * 16 + v < 16 ^ (off + 1)" by simp
  from Cons.prems(1,2) have "\<exists>acc'. hexField (off + 1) (acc * 16 + v) (cs @ CHR ''.'' # rest) =
      Some (off + 1 + length cs, acc')"
    by (intro Cons.IH [OF _ _ c]) simp_all
  with v o b show ?case by simp
qed

lemma dotted_first_field:
  assumes "parseIPv4 d = Some b"
  shows "\<exists>ds rest. d = ds @ CHR ''.'' # rest \<and> ds \<noteq> [] \<and> (\<forall>c \<in> set ds. isDigit c) \<and> length ds \<le> 3"
proof -
  from parseIPv4_facts(3) [OF assms] obtain ds rest where
    d: "d = ds @ CHR ''.'' # rest" and nd: "CHR ''.'' \<notin> set ds"
    by (meson split_list_first)
  from parseIPv4_facts(1) [OF assms] d nd have dg: "\<forall>c \<in> set ds. isDigit c"
    by auto
  from parseIPv4_facts(4,5) [OF assms] d have ne: "ds \<noteq> []"
    by (cases ds) (auto dest: isDigit_not_special)
  from assms d have "parseIPv4_loop d 0 [] 0 0 (ds @ CHR ''.'' # rest) = Some b"
    by (simp add: parseIPv4_def)
  from parseIPv4_loop_digits [OF this dg] have "length ds \<le> 3" by simp
  with d ne dg show ?thesis by blast
qed

lemma parseIPv6_loop_embedded:
  assumes "parseIPv4 d = Some b" and "i < 16" and "i + 4 \<le> 16" and "ell \<noteq> None"
  shows "parseIPv6_loop i ell ip d = Some (i + 4, ell, take i ip @ b @ drop (i + 4) ip, [])"
proof -
  from dotted_first_field [OF assms(1)] obtain ds rest where
    d: "d = ds @ CHR ''.'' # rest" and ne: "ds \<noteq> []" and dg: "\<forall>c \<in> set ds. isDigit c"
    and l3: "length ds \<le> 3"
    by blast
  from hexField_digits [OF dg, of 0 0 rest] l3 obtain acc where
    h: "hexField 0 0 d = Some (length ds, acc)"
    using d by auto
  have t: "take 1 (drop (length ds) d) = ''.''"
    using d by simp
  from ne have z: "length ds \<noteq> 0" by simp
  show ?thesis
    using assms h t z by (subst parseIPv6_loop.simps) simp
qed

lemma parseIPv6_loop_next:
  assumes "i < 16" and "hexField 0 0 s = Some (off, acc)" and "off \<noteq> 0"
    and "take 1 (drop off s) = '':''" and "length (drop off s) \<noteq> 1"
    and "take 1 (drop (off + 1) s) \<noteq> '':''"
  shows "parseIPv6_loop i ell ip s =
         parseIPv6_loop (i + 2) ell (ip[i := of_nat (acc div 256), i + 1 := of_nat acc])
           (drop (off + 1) s)"
proof -
  from assms(4) have "drop off s \<noteq> []" by auto
  with assms show ?thesis
    by (subst parseIPv6_loop.simps) simp
qed

lemma parseIPv6_mapped:
  assumes "parseIPv4 d = Some b"
  shows "parseIPv6 (''::ffff:'' @ d) = Some (Addr6 (v4InV6Prefix @ b) [])"
proof -
  from parseIPv4_facts [OF assms] have ne: "d \<noteq> []" and hd: "isDigit (hd d)" and lb: "length b = 4"
    by simp_all
  from ne hd have nc: "take 1 d \<noteq> '':''"
    by (cases d) (auto dest: isDigit_not_special)
  have pct: "IndexByteString (''::ffff:'' @ d) CHR ''%'' = None"
    using parseIPv4_no_special(2) [OF assms] by (simp add: IndexByteString_None_iff)
  have hf: "hexField 0 0 (''ffff:'' @ d) = Some (4, 65535)"
    by (simp add: hexval_def)
  have w: "(65535 :: byte) = 255" by simp
  have step: "parseIPv6_loop 0 (Some 0) zero16 (''ffff:'' @ d) =
      parseIPv6_loop 2 (Some 0) (zero16[0 := 0xff, 1 := 0xff]) d"
    using parseIPv6_loop_next [of 0 "''ffff:'' @ d" 4 65535 "Some 0" zero16] hf ne nc
    by (simp add: w numeral_2_eq_2)
  have emb: "parseIPv6_loop 2 (Some 0) (zero16[0 := 0xff, 1 := 0xff]) d =
      Some (6, Some 0, take 2 (zero16[0 := 0xff, 1 := 0xff]) @ b @
                       drop 6 (zero16[0 := 0xff, 1 := 0xff]), [])"
    using parseIPv6_loop_embedded [OF assms, of 2 "Some 0" "zero16[0 := 0xff, 1 := 0xff]"]
    by simp
  have "parseIPv6_loop 0 (Some 0) zero16 (drop 2 (''::ffff:'' @ d)) =
      Some (6, Some 0, take 2 (zero16[0 := 0xff, 1 := 0xff]) @ b @
                       drop 6 (zero16[0 := 0xff, 1 := 0xff]), [])"
    using step emb by simp
  with pct lb show ?thesis
    by (simp add: parseIPv6_def zero16_def v4InV6Prefix_def)
qed

lemma ParseIP_mapped:
  "parseIPv4 d = Some b \<Longrightarrow> ParseIP (''::ffff:'' @ d) = Some (v4InV6Prefix @ b)"
  using parseIPv6_mapped [of d b] by (simp add: ParseIP_def ParseAddr_def)

lemma TrimSpace_mapped: "parseIPv4 d = Some b \<Longrightarrow> TrimSpace (''::ffff:'' @ d) = ''::ffff:'' @ d"
  using parseIPv4_facts(4,6) [of d b] isDigit_printable
  by (intro TrimSpace_printable_ends) auto

subsection \<open>Evaluation on examples\<close>

lemma CIDRMask_loop_unfold:
  "CIDRMask_loop n l =
     (if l = 0 then []
      else if n \<ge> 8 then 0xff # CIDRMask_loop (n - 8) (l - 1)
      else NOT (drop_bit n (0xff :: byte)) # CIDRMask_loop 0 (l - 1))"
  by (cases l) simp_all

lemmas str_eval = HasPrefix_def Split_def ReplaceAll_def IsSpace_def leadingSpace_def
  trailingSpace_def TrimLeftSpace.simps TrimRightSpace.simps TrimSpace_def

lemmas net_eval = LastIndexByteString_def splitTail_def SplitHostPort_def isDigit_def
  parseIPv4_def hexval_def parseIPv6_loop.simps parseIPv6_def ParseAddr_def v4InV6Prefix_def
  IPv4len_def IPv6len_def ParseIP_def To4_def dtoi_def CIDRMask_def allFF_def IP_Mask_def
  ParseCIDR_def networkNumberAndMask_def IPNet_Contains_def zero16_def CIDRMask_loop_unfold
  normalize4_def

lemma normalize4_mapped: "length b = 4 \<Longrightarrow> normalize4 (v4InV6Prefix @ b) = b"
  by (simp add: normalize4_def To4_def IPv4len_def IPv6len_def v4InV6Prefix_def zero16_def)

lemma cidr_a: "ParseCIDR ''192.168.1.10/32'' =
    Some ([0, 0, 0, 0, 0, 0, 0, 0, 0, 0, 255, 255, 192, 168, 1, 10], net_192_168_1_10)"
  by (simp add: net_eval net_192_168_1_10_def)

lemma cidr_b: "ParseCIDR ''10.0.0.0/8'' =
    Some ([0, 0, 0, 0, 0, 0, 0, 0, 0, 0, 255, 255, 10, 0, 0, 0], net_10_8)"
  by (simp add: net_eval net_10_8_def)

lemma cidr_c: "ParseCIDR ''192.168.1.1/32'' =
    Some ([0, 0, 0, 0, 0, 0, 0, 0, 0, 0, 255, 255, 192, 168, 1, 1], net_192_168_1_1)"
  by (simp add: net_eval net_192_168_1_1_def)


lemma cidr_e: "ParseCIDR ''bad_cidr/32'' = None"
  by (simp add: net_eval)

lemma entry_a: "whitelistEntry ''192.168.1.10'' = Some net_192_168_1_10"
  by (simp add: whitelistEntry_def str_eval cidr_a)

lemma entry_b: "whitelistEntry ''10.0.0.0/8'' = Some net_10_8"
  by (simp add: whitelistEntry_def str_eval cidr_b)

lemma entry_c: "whitelistEntry ''192.168.1.1'' = Some net_192_168_1_1"
  by (simp add: whitelistEntry_def str_eval cidr_c)


lemma entry_e: "whitelistEntry ''bad_cidr'' = None"
  by (simp add: whitelistEntry_def str_eval cidr_e)

lemma split_a: "Split ''192.168.1.10'' '','' = [''192.168.1.10'']"
  by (simp add: str_eval)

lemma split_b: "Split ''192.168.1.1,10.0.0.0/8'' '','' = [''192.168.1.1'', ''10.0.0.0/8'']"
  by (simp add: str_eval)

lemma split_c: "Split ''10.0.0.0/8,192.168.1.1'' '','' = [''10.0.0.0/8'', ''192.168.1.1'']"
  by (simp add: str_eval)

lemma split_d: "Split ''192.168.1.1,bad_cidr,10.0.0.0/8'' '','' =
    [''192.168.1.1'', ''bad_cidr'', ''10.0.0.0/8'']"
  by (simp add: str_eval)


lemma trim_a: "TrimSpace ''192.168.1.10'' = ''192.168.1.10''"
  by (simp add: str_eval)

lemma trim_b: "TrimSpace ''192.168.1.1,10.0.0.0/8'' = ''192.168.1.1,10.0.0.0/8''"
  by (simp add: str_eval)


lemma trim_d: "TrimSpace ''10.1.2.3'' = ''10.1.2.3''"
  by (simp add: str_eval)

lemma host_a: "remoteHost ''192.168.1.10:8080'' = ''192.168.1.10''"
  by (simp add: remoteHost_def net_eval)

lemma host_b: "remoteHost ''10.1.2.3:8080'' = ''10.1.2.3''"
  by (simp add: remoteHost_def net_eval)




lemma split_fail_a: "SplitHostPort ''192.168.1.10'' = Inl missingPort"
  by (simp add: net_eval)

lemma ip_a: "ParseIP ''192.168.1.10'' = Some [0, 0, 0, 0, 0, 0, 0, 0, 0, 0, 255, 255, 192, 168, 1, 10]"
  by (simp add: net_eval)

lemma ip_b: "ParseIP ''10.1.2.3'' = Some [0, 0, 0, 0, 0, 0, 0, 0, 0, 0, 255, 255, 10, 1, 2, 3]"
  by (simp add: net_eval)


lemma v4_a: "parseIPv4 ''192.168.1.10'' = Some [192, 168, 1, 10]"
  by (simp add: net_eval)

lemma norm_a: "normalize4 [0, 0, 0, 0, 0, 0, 0, 0, 0, 0, 255, 255, 192, 168, 1, 10] = [192, 168, 1, 10]"
  by (simp add: net_eval)

lemma norm_b: "normalize4 [0, 0, 0, 0, 0, 0, 0, 0, 0, 0, 255, 255, 10, 1, 2, 3] = [10, 1, 2, 3]"
  by (simp add: net_eval)


lemma contains_a: "IPNet_Contains net_192_168_1_10 [192, 168, 1, 10]"
  by (simp add: net_eval net_192_168_1_10_def)

lemma contains_b: "IPNet_Contains net_10_8 [10, 1, 2, 3]"
  by (simp add: net_eval net_10_8_def)

lemma contains_c: "\<not> IPNet_Contains net_192_168_1_1 [10, 1, 2, 3]"
  by (simp add: net_eval net_192_168_1_1_def)


lemma allowed_a: "IsIPAllowed ''192.168.1.10:8080'' ''192.168.1.10''"
  by (simp add: IsIPAllowed_def trim_a split_a entry_a host_a ip_a norm_a contains_a)

lemma allowed_b: "IsIPAllowed ''10.1.2.3:8080'' ''192.168.1.1,10.0.0.0/8''"
  by (simp add: IsIPAllowed_def trim_b trim_d split_b entry_b entry_c host_b ip_b norm_b
      contains_b contains_c)


lemma TrimSpace_Nil: "TrimSpace '''' = ''''"
  by (simp add: TrimSpace_def TrimLeftSpace.simps TrimRightSpace.simps leadingSpace_def
      trailingSpace_def)

lemma IsIPAllowed_guard: "TrimSpace ipWhitelist = '''' \<Longrightarrow> \<not> IsIPAllowed remoteAddr ipWhitelist"
  by (simp add: IsIPAllowed_def)

lemma trim_blank: "TrimSpace [CHR '' '', CHR 0x09, CHR 0xC2, CHR 0xA0, CHR '' ''] = ''''"
  by (simp add: str_eval)

lemma SplitHostPort_no_colon:
  assumes "CHR '':'' \<notin> set h"
  shows "SplitHostPort h = Inl missingPort"
proof -
  from assms have "LastIndexByteString h CHR '':'' = None"
    by (simp add: LastIndexByteString_None_iff)
  then show ?thesis
    by (simp add: SplitHostPort_def)
qed

lemma SplitHostPort_mapped_bare:
  assumes "CHR '':'' \<notin> set d"
  shows "SplitHostPort (''::ffff:'' @ d) = Inl tooManyColons"
proof -
  have "LastIndexByteString (''::ffff:'' @ d) CHR '':'' = Some 6"
    using LastIndexByteString_last [of "CHR '':''" d "''::ffff''"] assms by simp
  then show ?thesis
    by (simp add: SplitHostPort_def)
qed

lemma IsIPAllowed_mapped:
  assumes "parseIPv4 d = Some b"
    and "remoteHost x = ''::ffff:'' @ d" and "remoteHost y = d"
  shows "IsIPAllowed x spec = IsIPAllowed y spec"
proof -
  from parseIPv4_facts(2) [OF assms(1)] have l: "length b = 4" .
  have "ParseIP (TrimSpace (remoteHost x)) = Some (v4InV6Prefix @ b)"
    using assms(2) TrimSpace_mapped [OF assms(1)] ParseIP_mapped [OF assms(1)] by simp
  moreover have "ParseIP (TrimSpace (remoteHost y)) = Some (v4InV6Prefix @ b)"
    using assms(3) TrimSpace_parseIPv4 [OF assms(1)] ParseIP_dotted [OF assms(1)] by simp
  ultimately show ?thesis
    by (rule IsIPAllowed_same_ip) simp
qed

subsection \<open>Lists as text\<close>

lemma leadingSpace_ascii: "asciiSpace c \<Longrightarrow> leadingSpace (c # s) = 1"
  by (auto simp: asciiSpace_def leadingSpace_def IsSpace_def)

lemma TrimLeftSpace_ascii: "\<forall>c \<in> set s. asciiSpace c \<Longrightarrow> TrimLeftSpace s = ''''"
proof (induction s)
  case Nil
  show ?case by (simp add: TrimLeftSpace.simps leadingSpace_def)
next
  case (Cons c s)
  then have "leadingSpace (c # s) = 1" by (simp add: leadingSpace_ascii)
  with Cons show ?case
    by (subst TrimLeftSpace.simps) simp
qed

lemma TrimRightSpace_Nil: "TrimRightSpace '''' = ''''"
  by (simp add: TrimRightSpace.simps trailingSpace_def)

lemma TrimSpace_ascii: "\<forall>c \<in> set s. asciiSpace c \<Longrightarrow> TrimSpace s = ''''"
  by (simp add: TrimSpace_def TrimLeftSpace_ascii TrimRightSpace_Nil)

lemma genSplit_entry:
  "CHR '','' \<notin> set e \<Longrightarrow>
   genSplit 0 '','' acc (e @ '','' @ r) = (rev acc @ e) # genSplit 0 '','' [] r"
  by (induction e arbitrary: acc) (auto simp: HasPrefix_def)

lemma Split_Join:
  "es \<noteq> [] \<Longrightarrow> \<forall>e \<in> set es. CHR '','' \<notin> set e \<Longrightarrow> Split (Join es '','') '','' = es"
proof (induction es "'',''" rule: Join.induct)
  case 1
  then show ?case by simp
next
  case (2 e)
  then show ?case by (simp add: Split_no_comma)
next
  case (3 e e' es)
  from 3 have "Split (Join (e' # es) '','') '','' = e' # es" by simp
  moreover from 3 have "CHR '','' \<notin> set e" by simp
  ultimately show ?case
    using genSplit_entry [of e "[]" "Join (e' # es) '',''"] by (simp add: Split_def)
qed

lemma IsIPAllowed_Nil: "\<not> IsIPAllowed a ''''"
  by (simp add: IsIPAllowed_guard TrimSpace_Nil)

lemma IsIPAllowed_Join:
  assumes "\<forall>e \<in> set es. CHR '','' \<notin> set e"
  shows "IsIPAllowed a (Join es '','') =
     (case ParseIP (TrimSpace (remoteHost a)) of
        None \<Rightarrow> False
      | Some ip \<Rightarrow> \<exists>n \<in> set (ipNets_of es). IPNet_Contains n (normalize4 ip))"
proof (cases "es = []")
  case True
  then show ?thesis by (simp add: IsIPAllowed_Nil split: option.splits)
next
  case False
  with assms have "Split (Join es '','') '','' = es" by (simp add: Split_Join)
  then show ?thesis by (simp add: IsIPAllowed_entries split: option.splits)
qed

subsection \<open>The claims about the access matcher\<close>

text \<open>
  C4. Under a list that is empty after trimming, in particular the empty list and every
  list made of ASCII white space only, the matcher denies every client address.
\<close>

theorem IsIPAllowed_empty_whitelist:
  "(TrimSpace ipWhitelist = '''' \<longrightarrow> \<not> IsIPAllowed remoteAddr ipWhitelist) \<and>
   ((\<forall>c \<in> set ipWhitelist. asciiSpace c) \<longrightarrow>
      TrimSpace ipWhitelist = '''' \<and> \<not> IsIPAllowed remoteAddr ipWhitelist) \<and>
   \<not> IsIPAllowed remoteAddr ''''"
  by (simp add: IsIPAllowed_guard TrimSpace_ascii TrimSpace_Nil)

theorem IsIPAllowed_empty_whitelist_witness:
  "\<not> IsIPAllowed ''127.0.0.1:1234'' '''' \<and>
   TrimSpace [CHR '' '', CHR 0x09, CHR 0xC2, CHR 0xA0, CHR '' ''] = '''' \<and>
   \<not> IsIPAllowed ''127.0.0.1:1234'' [CHR '' '', CHR 0x09, CHR 0xC2, CHR 0xA0, CHR '' ''] \<and>
   asciiSpace CHR '' '' \<and> asciiSpace CHR 0x09 \<and>
   \<not> IsIPAllowed ''127.0.0.1:1234'' [CHR '' '', CHR 0x09, CHR '' '']"
proof -
  have a: "\<forall>c \<in> set [CHR '' '', CHR 0x09, CHR '' '']. asciiSpace c"
    by (simp add: asciiSpace_def)
  from IsIPAllowed_empty_whitelist [of "''''" "''127.0.0.1:1234''"]
  have 1: "\<not> IsIPAllowed ''127.0.0.1:1234'' ''''"
    by blast
  from IsIPAllowed_empty_whitelist [of "[CHR '' '', CHR 0x09, CHR 0xC2, CHR 0xA0, CHR '' '']"
      "''127.0.0.1:1234''"] trim_blank
  have 2: "\<not> IsIPAllowed ''127.0.0.1:1234'' [CHR '' '', CHR 0x09, CHR 0xC2, CHR 0xA0, CHR '' '']"
    by blast
  from IsIPAllowed_empty_whitelist [of "[CHR '' '', CHR 0x09, CHR '' '']" "''127.0.0.1:1234''"] a
  have 3: "\<not> IsIPAllowed ''127.0.0.1:1234'' [CHR '' '', CHR 0x09, CHR '' '']"
    by blast
  from 1 2 3 trim_blank show ?thesis
    by (simp add: asciiSpace_def)
qed




text \<open>
  C7, as stated: every way of writing an admitted address gives the same result, with or
  without a port and with or without brackets. The address \<open>192.168.1.10\<close> is admitted
  with a port and denied when written in brackets without one.
\<close>

theorem IsIPAllowed_reformatting_counterexample:
  "IsIPAllowed ''192.168.1.10:8080'' ''192.168.1.10'' \<and>
   \<not> IsIPAllowed ''[192.168.1.10]'' ''192.168.1.10''"
  using IsIPAllowed_bracketed_no_port [of "''192.168.1.10''" "''192.168.1.10''"]
  by (simp add: allowed_a)

text \<open>
  C7, amended. For a host \<open>h\<close> without brackets and ports \<open>p\<close>, \<open>q\<close> without colons or
  brackets, under every list: \<open>[h]:p\<close> and \<open>[h]:q\<close> give the same result; so does
  \<open>h:p\<close> when \<open>h\<close> has no colon; so does \<open>h\<close> alone when \<open>h\<close> does not itself split
  into host and port; and when \<open>h\<close> is a dotted IPv4 address, its IPv4-mapped form
  \<open>::ffff:h\<close> gives the same result as \<open>h\<close>, with a port and without. The client
  \<open>[::ffff:192.168.1.10]:8080\<close> is admitted by the list \<open>192.168.1.10\<close>.
\<close>

theorem IsIPAllowed_reformatting:
  assumes "CHR ''['' \<notin> set h" and "CHR '']'' \<notin> set h"
    and "CHR '':'' \<notin> set p" and "CHR ''['' \<notin> set p" and "CHR '']'' \<notin> set p"
    and "CHR '':'' \<notin> set q" and "CHR ''['' \<notin> set q" and "CHR '']'' \<notin> set q"
  shows
    "IsIPAllowed (''['' @ h @ '']:'' @ p) spec = IsIPAllowed (''['' @ h @ '']:'' @ q) spec \<and>
     (CHR '':'' \<notin> set h \<longrightarrow>
        IsIPAllowed (h @ '':'' @ p) spec = IsIPAllowed (''['' @ h @ '']:'' @ p) spec) \<and>
     ((\<exists>e. SplitHostPort h = Inl e) \<longrightarrow>
        IsIPAllowed h spec = IsIPAllowed (''['' @ h @ '']:'' @ p) spec) \<and>
     (\<forall>b. parseIPv4 h = Some b \<longrightarrow>
        IsIPAllowed (''[::ffff:'' @ h @ '']:'' @ p) spec = IsIPAllowed (h @ '':'' @ p) spec \<and>
        IsIPAllowed (''::ffff:'' @ h) spec = IsIPAllowed h spec) \<and>
     IsIPAllowed ''[::ffff:192.168.1.10]:8080'' ''192.168.1.10''"
proof (intro conjI impI allI)
  have hp: "remoteHost (''['' @ h @ '']:'' @ p) = h"
    using SplitHostPort_bracket_port [OF assms(1,2,3,4,5)] by (simp add: remoteHost_def)
  have hq: "remoteHost (''['' @ h @ '']:'' @ q) = h"
    using SplitHostPort_bracket_port [OF assms(1,2,6,7,8)] by (simp add: remoteHost_def)
  from hp hq show "IsIPAllowed (''['' @ h @ '']:'' @ p) spec = IsIPAllowed (''['' @ h @ '']:'' @ q) spec"
    by (intro IsIPAllowed_same_host) simp
  {
    assume c: "CHR '':'' \<notin> set h"
    have "remoteHost (h @ '':'' @ p) = h"
      using SplitHostPort_host_port [OF c assms(1,2,3,4,5)] by (simp add: remoteHost_def)
    with hp show "IsIPAllowed (h @ '':'' @ p) spec = IsIPAllowed (''['' @ h @ '']:'' @ p) spec"
      by (intro IsIPAllowed_same_host) simp
  }
  {
    assume "\<exists>e. SplitHostPort h = Inl e"
    then have "remoteHost h = TrimSpace h"
      by (auto simp: remoteHost_def)
    with hp show "IsIPAllowed h spec = IsIPAllowed (''['' @ h @ '']:'' @ p) spec"
      by (intro IsIPAllowed_same_host) (simp add: TrimSpace_idem)
  }
  {
    fix b assume v: "parseIPv4 h = Some b"
    from parseIPv4_no_special [OF v] have c: "CHR '':'' \<notin> set h" by simp
    have m: "remoteHost (''[::ffff:'' @ h @ '']:'' @ p) = ''::ffff:'' @ h"
      using SplitHostPort_bracket_port [of "''::ffff:'' @ h" p] assms
      by (simp add: remoteHost_def)
    have d: "remoteHost (h @ '':'' @ p) = h"
      using SplitHostPort_host_port [OF c assms(1,2,3,4,5)] by (simp add: remoteHost_def)
    from IsIPAllowed_mapped [OF v m d]
    show "IsIPAllowed (''[::ffff:'' @ h @ '']:'' @ p) spec = IsIPAllowed (h @ '':'' @ p) spec" .
    have m': "remoteHost (''::ffff:'' @ h) = ''::ffff:'' @ h"
      using SplitHostPort_mapped_bare [OF c] TrimSpace_mapped [OF v] by (simp add: remoteHost_def)
    have d': "remoteHost h = h"
      using SplitHostPort_no_colon [OF c] TrimSpace_parseIPv4 [OF v] by (simp add: remoteHost_def)
    from IsIPAllowed_mapped [OF v m' d']
    show "IsIPAllowed (''::ffff:'' @ h) spec = IsIPAllowed h spec" .
  }
  have m: "remoteHost ''[::ffff:192.168.1.10]:8080'' = ''::ffff:'' @ ''192.168.1.10''"
    using SplitHostPort_bracket_port [of "''::ffff:192.168.1.10''" "''8080''"]
    by (simp add: remoteHost_def)
  from IsIPAllowed_mapped [OF v4_a m host_a, of "''192.168.1.10''"] allowed_a
  show "IsIPAllowed ''[::ffff:192.168.1.10]:8080'' ''192.168.1.10''"
    by simp
qed

theorem IsIPAllowed_reformatting_witness:
  "parseIPv4 ''192.168.1.10'' = Some [192, 168, 1, 10] \<and>
   SplitHostPort ''192.168.1.10'' = Inl missingPort \<and>
   IsIPAllowed ''192.168.1.10:8080'' ''192.168.1.10'' \<and>
   IsIPAllowed ''[192.168.1.10]:8080'' ''192.168.1.10'' \<and>
   IsIPAllowed ''[192.168.1.10]:443'' ''192.168.1.10'' \<and>
   IsIPAllowed ''192.168.1.10'' ''192.168.1.10'' \<and>
   IsIPAllowed ''[::ffff:192.168.1.10]:8080'' ''192.168.1.10'' \<and>
   IsIPAllowed ''::ffff:192.168.1.10'' ''192.168.1.10''"
proof -
  have s: "\<exists>e. SplitHostPort ''192.168.1.10'' = Inl e"
    by (simp add: split_fail_a)
  from IsIPAllowed_reformatting [of "''192.168.1.10''" "''8080''" "''443''" "''192.168.1.10''"] s v4_a
  have "IsIPAllowed ''[192.168.1.10]:8080'' ''192.168.1.10'' =
          IsIPAllowed ''[192.168.1.10]:443'' ''192.168.1.10''"
    and "IsIPAllowed ''192.168.1.10:8080'' ''192.168.1.10'' =
          IsIPAllowed ''[192.168.1.10]:8080'' ''192.168.1.10''"
    and "IsIPAllowed ''192.168.1.10'' ''192.168.1.10'' =
          IsIPAllowed ''[192.168.1.10]:8080'' ''192.168.1.10''"
    and "IsIPAllowed ''[::ffff:192.168.1.10]:8080'' ''192.168.1.10'' =
          IsIPAllowed ''192.168.1.10:8080'' ''192.168.1.10''"
    and "IsIPAllowed ''::ffff:192.168.1.10'' ''192.168.1.10'' =
          IsIPAllowed ''192.168.1.10'' ''192.168.1.10''"
    by simp_all
  with allowed_a v4_a split_fail_a show ?thesis by simp
qed

text \<open>
  C8. \<open>IsIPAllowed\<close> is a function of its two arguments, and its result depends on
  the list only through the entries that parse. For lists
  written with \<open>Join\<close> from entries without commas: a permutation of the entries gives
  the same result, and so does an entry that does not parse put anywhere in the list. The
  same holds of any two lists whose entries, as \<open>Split\<close> finds them, are permutations of
  each other or differ by one entry that does not parse.
\<close>

theorem IsIPAllowed_order_and_bad_entries:
  assumes "\<forall>e \<in> set (xs @ ys). CHR '','' \<notin> set e" and "\<forall>e \<in> set es. CHR '','' \<notin> set e"
    and "CHR '','' \<notin> set bad"
  shows
    "(mset es = mset (xs @ ys) \<longrightarrow>
        IsIPAllowed a (Join es '','') = IsIPAllowed a (Join (xs @ ys) '','')) \<and>
     (whitelistEntry bad = None \<longrightarrow>
        IsIPAllowed a (Join (xs @ bad # ys) '','') = IsIPAllowed a (Join (xs @ ys) '','')) \<and>
     (es \<noteq> [] \<longrightarrow> Split (Join es '','') '','' = es) \<and>
     (mset (Split spec '','') = mset (Split spec' '','') \<longrightarrow>
        IsIPAllowed a spec = IsIPAllowed a spec') \<and>
     (Split spec '','' = xs @ ys \<and> Split spec' '','' = xs @ bad # ys \<and> whitelistEntry bad = None \<longrightarrow>
        IsIPAllowed a spec = IsIPAllowed a spec')"
proof (intro conjI impI)
  assume "mset es = mset (xs @ ys)"
  then have "set es = set (xs @ ys)" by (rule mset_eq_setD)
  then have "set (ipNets_of es) = set (ipNets_of (xs @ ys))" by (simp add: set_ipNets_of)
  with assms(1,2) show "IsIPAllowed a (Join es '','') = IsIPAllowed a (Join (xs @ ys) '','')"
    by (simp add: IsIPAllowed_Join split: option.splits)
next
  assume h: "whitelistEntry bad = None"
  then have "set (ipNets_of (xs @ bad # ys)) = set (ipNets_of (xs @ ys))"
    by (simp add: ipNets_of_append)
  moreover from assms have "\<forall>e \<in> set (xs @ bad # ys). CHR '','' \<notin> set e" by auto
  ultimately show "IsIPAllowed a (Join (xs @ bad # ys) '','') = IsIPAllowed a (Join (xs @ ys) '','')"
    using assms(1) by (simp add: IsIPAllowed_Join split: option.splits)
next
  assume "es \<noteq> []"
  with assms(2) show "Split (Join es '','') '','' = es" by (simp add: Split_Join)
next
  assume "mset (Split spec '','') = mset (Split spec' '','')"
  then have "set (Split spec '','') = set (Split spec' '','')"
    by (rule mset_eq_setD)
  then show "IsIPAllowed a spec = IsIPAllowed a spec'"
    by (intro IsIPAllowed_same_nets) (simp add: set_ipNets_of)
next
  assume "Split spec '','' = xs @ ys \<and> Split spec' '','' = xs @ bad # ys \<and> whitelistEntry bad = None"
  then show "IsIPAllowed a spec = IsIPAllowed a spec'"
    by (intro IsIPAllowed_same_nets) (simp add: ipNets_of_append)
qed

theorem IsIPAllowed_order_and_bad_entries_witness:
  "Join [''192.168.1.1'', ''10.0.0.0/8''] '','' = ''192.168.1.1,10.0.0.0/8'' \<and>
   Join [''10.0.0.0/8'', ''192.168.1.1''] '','' = ''10.0.0.0/8,192.168.1.1'' \<and>
   Join ([''192.168.1.1''] @ ''bad_cidr'' # [''10.0.0.0/8'']) '','' = ''192.168.1.1,bad_cidr,10.0.0.0/8'' \<and>
   whitelistEntry ''bad_cidr'' = None \<and>
   Split ''192.168.1.1,10.0.0.0/8'' '','' = [''192.168.1.1'', ''10.0.0.0/8''] \<and>
   IsIPAllowed ''10.1.2.3:8080'' ''192.168.1.1,10.0.0.0/8'' \<and>
   IsIPAllowed ''10.1.2.3:8080'' ''10.0.0.0/8,192.168.1.1'' \<and>
   IsIPAllowed ''10.1.2.3:8080'' ''192.168.1.1,bad_cidr,10.0.0.0/8''"
proof -
  have c: "\<forall>e \<in> set ([''192.168.1.1''] @ [''10.0.0.0/8'']). CHR '','' \<notin> set e"
    "\<forall>e \<in> set [''10.0.0.0/8'', ''192.168.1.1'']. CHR '','' \<notin> set e"
    "CHR '','' \<notin> set ''bad_cidr''"
    by simp_all
  have m: "mset [''10.0.0.0/8'', ''192.168.1.1''] = mset ([''192.168.1.1''] @ [''10.0.0.0/8''])"
    by simp
  note t = IsIPAllowed_order_and_bad_entries [OF c, of "''10.1.2.3:8080''"
      "''192.168.1.1,10.0.0.0/8''" "''10.0.0.0/8,192.168.1.1''"]
  from t m have 1: "IsIPAllowed ''10.1.2.3:8080'' (Join [''10.0.0.0/8'', ''192.168.1.1''] '','') =
      IsIPAllowed ''10.1.2.3:8080'' (Join ([''192.168.1.1''] @ [''10.0.0.0/8'']) '','')"
    by blast
  from t entry_e have 2:
    "IsIPAllowed ''10.1.2.3:8080'' (Join ([''192.168.1.1''] @ ''bad_cidr'' # [''10.0.0.0/8'']) '','') =
      IsIPAllowed ''10.1.2.3:8080'' (Join ([''192.168.1.1''] @ [''10.0.0.0/8'']) '','')"
    by blast
  from t have 3: "Split (Join [''10.0.0.0/8'', ''192.168.1.1''] '','') '','' =
      [''10.0.0.0/8'', ''192.168.1.1'']"
    by simp
  from 1 2 3 allowed_b entry_e split_b show ?thesis by simp
qed

section \<open>Properties of the server\<close>

text \<open>
  C5. With an empty \<open>IP_WHITELIST\<close> the handler of the registry path makes no call of the
  matcher: it forwards the request (after the log line for paths other than \<open>/v2/\<close>),
  whatever the client address is, although the matcher itself denies every address under
  the empty list.
\<close>

theorem handleProxy_empty_whitelist:
  assumes "IpWhitelist cfg = ''''"
  shows "handleProxy GetClientIP cfg r =
           (if URL_Path (URL r) \<noteq> ''/v2/'' then [Call_logx_Print ''proxy to ECR''] else []) @
           [Call_proxy_ServeHTTP] \<and>
         (\<forall>a w. Call_IsIPAllowed a w \<notin> set (handleProxy GetClientIP cfg r)) \<and>
         \<not> IsIPAllowed (GetClientIP r) (IpWhitelist cfg)"
  using assms
  by (simp add: handleProxy_def forward_def v2Path_def IsIPAllowed_guard TrimSpace_Nil)

theorem handleProxy_empty_whitelist_witness:
  "IpWhitelist open_config = '''' \<and>
   handleProxy RemoteAddr open_config plain_request =
     [Call_logx_Print ''proxy to ECR'', Call_proxy_ServeHTTP] \<and>
   \<not> IsIPAllowed (RemoteAddr plain_request) (IpWhitelist open_config)"
proof -
  have e: "IpWhitelist open_config = ''''"
    by (simp add: open_config_def)
  have p: "URL_Path (URL plain_request) \<noteq> ''/v2/''"
    by (simp add: plain_request_def)
  from handleProxy_empty_whitelist [OF e, of RemoteAddr plain_request] e p
  show ?thesis by simp
qed

lemma GetToken_not_expired:
  "\<not> isExpiredUnsafe now t \<Longrightarrow> GetToken now now' svc t = ((Token t, None), t, [])"
  by (simp add: GetToken_def)

lemma GetToken_nil_error:
  "GetToken now now' svc t = ((s, None), t', calls) \<Longrightarrow> s = Token t'"
  by (auto simp: GetToken_def split: if_splits prod.splits option.splits)

lemma GetToken_refresh_error:
  "isExpiredUnsafe now t \<Longrightarrow> Refresh now' svc t = (Some e, t', calls) \<Longrightarrow>
   GetToken now now' svc t = (('''', Some e), t, calls)"
  using Refresh_error_unchanged [of now' svc t e t' calls] by (simp add: GetToken_def)

lemma Director_fields:
  "Director endpoint authToken req =
     req\<lparr>URL := (URL req)\<lparr>URL_Scheme := ''https'', URL_Host := endpoint\<rparr>,
         Host := endpoint,
         Header := (Header req)(''Authorization'' \<mapsto> [''Basic '' @ authToken])\<rparr>"
  by (simp add: Director_def Header_Set_def)

lemma GetToken_rotated:
  "GetToken (7 * Hour) (7 * Hour) (answering (Inr [Some rotated_record])) held_manager =
     ((''QVdTOm5ldw=='', None), rotated_manager, [[''123456789012'']])"
  by (simp add: GetToken_def isExpiredUnsafe_def After_def Refresh_def Before_def Add_def
      held_manager_def rotated_record_def rotated_manager_def answering_def Hour_def
      tokenRefreshAfter_def HasPrefix_def)

lemma GetToken_failed:
  "GetToken (7 * Hour) (7 * Hour) (answering (Inl (SdkError ''timeout''))) held_manager =
     (('''', Some (SdkError ''timeout'')), held_manager, [[''123456789012'']])"
  by (simp add: GetToken_def isExpiredUnsafe_def After_def Refresh_def Before_def
      held_manager_def answering_def Hour_def)

text \<open>
  While the credential has not expired, and whenever \<open>GetToken\<close> returns a nil error,
  the request leaves the \<open>Director\<close> with the scheme \<open>https\<close>, the endpoint stored when
  the hook started as URL host and as \<open>Host\<close>, and \<open>Basic\<close>, a space and the token the
  manager then holds as its one \<open>Authorization\<close> value.
\<close>

lemma Director_stamps_credential:
  "(GetToken now now' svc t = ((s, None), t', calls) \<longrightarrow>
      Director (GetEndpoint t) s req =
        req\<lparr>URL := (URL req)\<lparr>URL_Scheme := ''https'', URL_Host := Endpoint t\<rparr>,
            Host := Endpoint t,
            Header := (Header req)(''Authorization'' \<mapsto> [''Basic '' @ Token t'])\<rparr>) \<and>
   (\<not> isExpiredUnsafe now t \<longrightarrow> GetToken now now' svc t = ((Token t, None), t, []))"
proof (intro conjI impI)
  assume "GetToken now now' svc t = ((s, None), t', calls)"
  then have "s = Token t'" by (rule GetToken_nil_error)
  then show "Director (GetEndpoint t) s req =
        req\<lparr>URL := (URL req)\<lparr>URL_Scheme := ''https'', URL_Host := Endpoint t\<rparr>,
            Host := Endpoint t,
            Header := (Header req)(''Authorization'' \<mapsto> [''Basic '' @ Token t'])\<rparr>"
    by (simp add: Director_fields GetEndpoint_def)
next
  assume "\<not> isExpiredUnsafe now t"
  then show "GetToken now now' svc t = ((Token t, None), t, [])"
    by (rule GetToken_not_expired)
qed

text \<open>
  C10. The hook is to send the manager's current endpoint and the manager's current token.
  It does not on a credential that has expired, where the token read refreshes first.
  When that refresh fails, \<open>GetToken\<close> returns the empty string with the error and the
  manager keeps its token: no result of the call is the current token, and the header
  made from the string is \<open>Basic\<close> and a space with nothing after them. When the refresh
  succeeds and the service names another endpoint, the request has the host read before
  the refresh and the token stored by it.
\<close>

theorem Director_expired_credential:
  "isExpiredUnsafe (7 * Hour) held_manager \<and>
   GetToken (7 * Hour) (7 * Hour) (answering (Inl (SdkError ''timeout''))) held_manager =
     (('''', Some (SdkError ''timeout'')), held_manager, [[''123456789012'']]) \<and>
   Token held_manager = ''QVdTOnRvaw=='' \<and>
   Header (Director (GetEndpoint held_manager)
             (fst (fst (GetToken (7 * Hour) (7 * Hour) (answering (Inl (SdkError ''timeout'')))
                held_manager)))
             plain_request) ''Authorization'' = Some [''Basic ''] \<and>
   GetToken (7 * Hour) (7 * Hour) (answering (Inr [Some rotated_record])) held_manager =
     ((''QVdTOm5ldw=='', None), rotated_manager, [[''123456789012'']]) \<and>
   URL_Host (URL (Director (GetEndpoint held_manager)
             (fst (fst (GetToken (7 * Hour) (7 * Hour) (answering (Inr [Some rotated_record]))
                held_manager)))
             plain_request)) = ''123456789012.dkr.ecr.us-east-1.amazonaws.com'' \<and>
   Header (Director (GetEndpoint held_manager)
             (fst (fst (GetToken (7 * Hour) (7 * Hour) (answering (Inr [Some rotated_record]))
                held_manager)))
             plain_request) ''Authorization'' = Some [''Basic QVdTOm5ldw==''] \<and>
   Endpoint rotated_manager = ''123456789012.dkr.ecr-fips.us-east-1.amazonaws.com''"
proof -
  have e: "isExpiredUnsafe (7 * Hour) held_manager"
    by (simp add: isExpiredUnsafe_def After_def held_manager_def Hour_def)
  have g: "GetEndpoint held_manager = ''123456789012.dkr.ecr.us-east-1.amazonaws.com''"
    and k: "Token held_manager = ''QVdTOnRvaw==''"
    and r: "Endpoint rotated_manager = ''123456789012.dkr.ecr-fips.us-east-1.amazonaws.com''"
    by (simp_all add: GetEndpoint_def held_manager_def rotated_manager_def)
  from e g k r show ?thesis
    by (simp add: GetToken_failed GetToken_rotated Director_fields)
qed

end
